theory Spec2Isabelle
  imports Complex_Main "HOL-Library.Multiset"
begin

section \<open>The credit-card training script \<^verbatim>\<open>train.py\<close>\<close>

text \<open>
  The script is straight-line code over three libraries: pandas (the frame), scikit-learn
  (the splitter and the two classifiers) and MLflow (the tracked runs). Each statement of
  the script is a function on the script's state; a call that raises is the \<open>Inl\<close> branch
  of that function, and the script stops at the first one, as the interpreter does.
\<close>

subsection \<open>Errors\<close>

datatype error =
    KeyError
  | ValueError
  | IndexError
  | NameError
  | NotFittedError
  | MlflowException
  | LibraryError string

definition bindE :: "error + 'a \<Rightarrow> ('a \<Rightarrow> error + 'b) \<Rightarrow> error + 'b" where
  "bindE m f = (case m of Inl e \<Rightarrow> Inl e | Inr x \<Rightarrow> f x)"

text \<open>Reading a Python name that was never bound raises \<^verbatim>\<open>NameError\<close>.\<close>

definition var :: "'a option \<Rightarrow> error + 'a" where
  "var v = (case v of None \<Rightarrow> Inl NameError | Some x \<Rightarrow> Inr x)"

subsection \<open>Frames, series and arrays\<close>

datatype cell = IntCell int | StrCell string

text \<open>
  A frame has its column labels and its rows in order; a row is its index label (the
  script reads the CSV with \<^verbatim>\<open>index_col=0\<close>) and one cell per column.
\<close>

record dataframe =
  columns :: "string list"
  rows :: "(cell \<times> cell list) list"

type_synonym series = "(cell \<times> cell) list"

text \<open>What \<^verbatim>\<open>frame[label]\<close> gives: a series when one column has the label, a frame when several do.\<close>

datatype selection = Series series | Frame dataframe

record ndarray =
  shape :: "nat \<times> nat"
  data :: "cell list list"

text \<open>
  What pandas guarantees of every frame it parses from a CSV: the column labels are
  unique (a repeated header name is renamed on parsing) and every row has one cell per
  column.
\<close>

definition wf_frame :: "dataframe \<Rightarrow> bool" where
  "wf_frame df =
     (distinct (columns df) \<and> list_all (\<lambda>r. length (snd r) = length (columns df)) (rows df))"

fun find_index :: "'a \<Rightarrow> 'a list \<Rightarrow> nat option" where
  "find_index x [] = None"
| "find_index x (y # ys) =
     (if x = y then Some 0 else map_option Suc (find_index x ys))"

definition drop_at :: "nat \<Rightarrow> 'a list \<Rightarrow> 'a list" where
  "drop_at i xs = take i xs @ drop (Suc i) xs"

text \<open>The cells of a row that stand under a column of the given label, and the others.\<close>

definition cells_under :: "string \<Rightarrow> string list \<Rightarrow> 'a list \<Rightarrow> 'a list" where
  "cells_under item labels cells = map snd (filter (\<lambda>p. fst p = item) (zip labels cells))"

definition cells_beside :: "string \<Rightarrow> string list \<Rightarrow> 'a list \<Rightarrow> 'a list" where
  "cells_beside item labels cells = map snd (filter (\<lambda>p. fst p \<noteq> item) (zip labels cells))"

text \<open>
  \<^verbatim>\<open>frame[item]\<close>: a \<^verbatim>\<open>KeyError\<close> when no column has the label, the column as a series
  when exactly one has it, and the frame of all columns of that label otherwise.
\<close>

definition getitem :: "dataframe \<Rightarrow> string \<Rightarrow> error + selection" where
  "getitem df item =
     (case find_index item (columns df) of
        None \<Rightarrow> Inl KeyError
      | Some i \<Rightarrow>
          if count_list (columns df) item = 1
          then Inr (Series (map (\<lambda>r. (fst r, snd r ! i)) (rows df)))
          else Inr (Frame
                 \<lparr>columns = filter (\<lambda>c. c = item) (columns df),
                  rows = map (\<lambda>r. (fst r, cells_under item (columns df) (snd r))) (rows df)\<rparr>))"

text \<open>\<^verbatim>\<open>del frame[item]\<close>: every column of that label goes, from the header and from each row.\<close>

definition delitem :: "dataframe \<Rightarrow> string \<Rightarrow> dataframe" where
  "delitem df item =
     df\<lparr>columns := filter (\<lambda>c. c \<noteq> item) (columns df),
        rows := map (\<lambda>r. (fst r, cells_beside item (columns df) (snd r))) (rows df)\<rparr>"

text \<open>
  \<^verbatim>\<open>DataFrame.pop(item)\<close> is \<^verbatim>\<open>result = self[item]; del self[item]; return result\<close>: the
  read comes first, so a missing label raises before anything is deleted. The result is
  paired with the frame as the call leaves it.
\<close>

definition pop :: "dataframe \<Rightarrow> string \<Rightarrow> (error + selection) \<times> dataframe" where
  "pop df item =
     (case getitem df item of
        Inl e \<Rightarrow> (Inl e, df)
      | Inr result \<Rightarrow> (Inr result, delitem df item))"

text \<open>\<^verbatim>\<open>DataFrame.values\<close>: the cells without labels; the shape is (rows, columns).\<close>

definition values_of :: "dataframe \<Rightarrow> ndarray" where
  "values_of df =
     \<lparr>shape = (length (rows df), length (columns df)), data = map snd (rows df)\<rparr>"

subsection \<open>The splitter\<close>

text \<open>
  Modelled from the spec: \<^verbatim>\<open>sklearn.model_selection.train_test_split\<close> is library code,
  not part of the repository. Section 4.2 of the specification gives its contract (a test
  fraction, a random assignment without replacement, two partitions); the definition
  follows the library's shuffle split for a fractional \<^verbatim>\<open>test_size\<close>, no \<^verbatim>\<open>train_size\<close>
  and no stratification: the test partition takes the first \<open>\<lceil>test_size * n\<rceil>\<close> entries
  of a random permutation of the row positions, the train partition the rest, and an
  empty train partition is a \<^verbatim>\<open>ValueError\<close>. The permutation is the generator's draw: with
  \<^verbatim>\<open>random_state=None\<close> it is seeded from the operating system's entropy, with a seed it
  is a function of the seed.
\<close>

record rng =
  fresh_permutation :: "nat \<Rightarrow> nat list"
  seeded_permutation :: "nat \<Rightarrow> nat \<Rightarrow> nat list"

definition draw_permutation :: "rng \<Rightarrow> nat option \<Rightarrow> nat \<Rightarrow> nat list" where
  "draw_permutation g random_state n =
     (case random_state of
        None \<Rightarrow> fresh_permutation g n
      | Some seed \<Rightarrow> seeded_permutation g seed n)"

definition shuffle_split ::
  "rng \<Rightarrow> nat option \<Rightarrow> rat \<Rightarrow> nat \<Rightarrow> error + nat list \<times> nat list" where
  "shuffle_split g random_state test_size n_samples =
     (if test_size \<le> 0 \<or> 1 \<le> test_size then Inl ValueError
      else
        let n_test = nat \<lceil>test_size * of_nat n_samples\<rceil>;
            n_train = n_samples - n_test
        in if n_train = 0 then Inl ValueError
           else
             let permutation = draw_permutation g random_state n_samples;
                 ind_test = take n_test permutation;
                 ind_train = take n_train (drop n_test permutation)
             in Inr (ind_train, ind_test))"

text \<open>Positional row selection (\<^verbatim>\<open>iloc\<close>); a position past the end is an \<^verbatim>\<open>IndexError\<close>.\<close>

definition iloc :: "dataframe \<Rightarrow> nat list \<Rightarrow> error + dataframe" where
  "iloc df idx =
     (if list_all (\<lambda>i. i < length (rows df)) idx
      then Inr (df\<lparr>rows := map (\<lambda>i. rows df ! i) idx\<rparr>)
      else Inl IndexError)"

definition train_test_split ::
  "rng \<Rightarrow> dataframe \<Rightarrow> rat \<Rightarrow> nat option \<Rightarrow> error + dataframe \<times> dataframe" where
  "train_test_split g df test_size random_state =
     bindE (shuffle_split g random_state test_size (length (rows df))) (\<lambda>ind.
     bindE (iloc df (fst ind)) (\<lambda>train.
     bindE (iloc df (snd ind)) (\<lambda>test.
     Inr (train, test))))"

text \<open>The generator's contract: a draw for \<open>n\<close> rows is a permutation of \<open>0..<n\<close>.\<close>

definition permutes_rows :: "nat list \<Rightarrow> nat \<Rightarrow> bool" where
  "permutes_rows p n = (mset p = mset [0..<n])"

subsection \<open>What the script does not decide\<close>

text \<open>
  Modelled from the spec: the estimators (\<^verbatim>\<open>fit\<close>, \<^verbatim>\<open>predict\<close>), the report and the CSV
  reader are library code, not part of the repository. Following sections 4.1, 4.4 and
  4.5 of the specification they are functions of their inputs that return a value or
  raise; which value, and whether they raise, is left to the world the script runs in.
  The fitted model is opaque (the type \<open>'m\<close>).
\<close>

datatype classifier =
    GradientBoostingClassifier nat rat
  | AdaBoostClassifier

record 'm estimator =
  params :: classifier
  fitted :: "'m option"

record 'm world =
  read_csv :: "string \<Rightarrow> nat \<Rightarrow> nat \<Rightarrow> error + dataframe"
  generator :: rng
  tracking_backend :: "string \<Rightarrow> error option"
  fit_estimator :: "classifier \<Rightarrow> ndarray \<Rightarrow> selection \<Rightarrow> error + 'm"
  predict_estimator :: "'m \<Rightarrow> ndarray \<Rightarrow> error + cell list"
  classification_report :: "selection \<Rightarrow> cell list \<Rightarrow> error + string"

subsection \<open>The script's state\<close>

text \<open>The library calls that returned, in call order, with their arguments.\<close>

datatype call =
    ReadCsv string
  | TrainTestSplit dataframe rat "nat option"
  | Pop dataframe string
  | SetExperiment string
  | Autolog
  | StartRun nat
  | EndRun nat
  | Fit classifier ndarray selection
  | Predict classifier ndarray
  | ClassificationReport selection "cell list"

text \<open>
  The module's names (unbound is \<open>None\<close>), MLflow's process-wide tracking state (the
  experiment, the autolog switch, the stack of active runs, the number of runs created so
  far), the console, and the calls made.
\<close>

record 'm state =
  credit_df :: "dataframe option"
  train_df :: "dataframe option"
  test_df :: "dataframe option"
  y_train :: "selection option"
  X_train :: "ndarray option"
  y_test :: "selection option"
  X_test :: "ndarray option"
  clf :: "'m estimator option"
  ada :: "'m estimator option"
  y_pred :: "cell list option"
  current_experiment :: "string option"
  autolog_enabled :: bool
  active_run_stack :: "nat list"
  runs_created :: nat
  console :: "string list"
  calls :: "call list"

definition initial :: "'m state" where
  "initial =
     \<lparr>credit_df = None, train_df = None, test_df = None, y_train = None, X_train = None,
      y_test = None, X_test = None, clf = None, ada = None, y_pred = None,
      current_experiment = None, autolog_enabled = False, active_run_stack = [], runs_created = 0,
      console = [], calls = []\<rparr>"

type_synonym 'm step = "'m state \<Rightarrow> error + 'm state"

subsection \<open>The tracked runs\<close>

text \<open>
  Modelled from the spec: MLflow is library code, not part of the repository. Sections
  4.6, 5 and 8 of the specification give the run logger's contract: a start makes a run
  active, an end closes the active run, at most one run is active, and a start while a
  run is active is a caller error. As in MLflow, that error is an exception and an end
  with no active run does nothing.
\<close>

definition start_run :: "'m step" where
  "start_run s =
     (if active_run_stack s \<noteq> [] then Inl MlflowException
      else Inr (s\<lparr>active_run_stack := runs_created s # active_run_stack s,
                  runs_created := Suc (runs_created s),
                  calls := calls s @ [StartRun (runs_created s)]\<rparr>))"

definition end_run :: "'m step" where
  "end_run s =
     (case active_run_stack s of
        [] \<Rightarrow> Inr s
      | r # rs \<Rightarrow> Inr (s\<lparr>active_run_stack := rs, calls := calls s @ [EndRun r]\<rparr>))"

subsection \<open>Printing the shape\<close>

function str_nat :: "nat \<Rightarrow> string" where
  "str_nat n =
     (if n < 10 then [''0123456789'' ! n]
      else str_nat (n div 10) @ [''0123456789'' ! (n mod 10)])"
  by pat_completeness auto
termination
  by (relation "measure id") auto

definition str_shape :: "nat \<times> nat \<Rightarrow> string" where
  "str_shape sh = ''('' @ str_nat (fst sh) @ '', '' @ str_nat (snd sh) @ '')''"

definition shape_line :: "ndarray \<Rightarrow> string" where
  "shape_line X = ''Training with data of shape '' @ str_shape (shape X)"

subsection \<open>The statements, by source line\<close>

definition dataset_url :: string where
  "dataset_url =
     ''https://azuremlexamples.blob.core.windows.net/datasets/credit_card/default_of_credit_card_clients.csv''"

definition label_column :: string where
  "label_column = ''default payment next month''"

definition experiment_name :: string where
  "experiment_name = ''Develop on cloud tutorial''"

definition line13 :: "'m world \<Rightarrow> 'm step" where
  "line13 w s =
     bindE (read_csv w dataset_url 1 0) (\<lambda>df.
     Inr (s\<lparr>credit_df := Some df, calls := calls s @ [ReadCsv dataset_url]\<rparr>))"

definition line19 :: "'m world \<Rightarrow> 'm step" where
  "line19 w s =
     bindE (var (credit_df s)) (\<lambda>df.
     bindE (train_test_split (generator w) df (1 / 4) None) (\<lambda>p.
     Inr (s\<lparr>train_df := Some (fst p), test_df := Some (snd p),
            calls := calls s @ [TrainTestSplit df (1 / 4) None]\<rparr>)))"

definition line26 :: "'m step" where
  "line26 s =
     bindE (var (train_df s)) (\<lambda>df.
     bindE (fst (pop df label_column)) (\<lambda>y.
     Inr (s\<lparr>train_df := Some (snd (pop df label_column)), y_train := Some y,
            calls := calls s @ [Pop df label_column]\<rparr>)))"

definition line29 :: "'m step" where
  "line29 s = bindE (var (train_df s)) (\<lambda>df. Inr (s\<lparr>X_train := Some (values_of df)\<rparr>))"

definition line32 :: "'m step" where
  "line32 s =
     bindE (var (test_df s)) (\<lambda>df.
     bindE (fst (pop df label_column)) (\<lambda>y.
     Inr (s\<lparr>test_df := Some (snd (pop df label_column)), y_test := Some y,
            calls := calls s @ [Pop df label_column]\<rparr>)))"

definition line35 :: "'m step" where
  "line35 s = bindE (var (test_df s)) (\<lambda>df. Inr (s\<lparr>X_test := Some (values_of df)\<rparr>))"

definition line39 :: "'m world \<Rightarrow> 'm step" where
  "line39 w s =
     (case tracking_backend w experiment_name of
        Some e \<Rightarrow> Inl e
      | None \<Rightarrow>
          Inr (s\<lparr>current_experiment := Some experiment_name,
                 calls := calls s @ [SetExperiment experiment_name]\<rparr>))"

definition line41 :: "'m step" where
  "line41 s = Inr (s\<lparr>autolog_enabled := True, calls := calls s @ [Autolog]\<rparr>)"

definition line45 :: "'m step" where
  "line45 s = bindE (var (X_train s)) (\<lambda>X. Inr (s\<lparr>console := console s @ [shape_line X]\<rparr>))"

definition line47 :: "'m step" where
  "line47 = start_run"

definition line48 :: "'m step" where
  "line48 s =
     Inr (s\<lparr>clf := Some \<lparr>params = GradientBoostingClassifier 100 (1 / 10), fitted = None\<rparr>\<rparr>)"

definition fit ::
  "'m world \<Rightarrow> 'm estimator \<Rightarrow> ndarray \<Rightarrow> selection \<Rightarrow> error + 'm estimator" where
  "fit w est X y = bindE (fit_estimator w (params est) X y) (\<lambda>m. Inr (est\<lparr>fitted := Some m\<rparr>))"

definition predict :: "'m world \<Rightarrow> 'm estimator \<Rightarrow> ndarray \<Rightarrow> error + cell list" where
  "predict w est X =
     (case fitted est of None \<Rightarrow> Inl NotFittedError | Some m \<Rightarrow> predict_estimator w m X)"

definition line49 :: "'m world \<Rightarrow> 'm step" where
  "line49 w s =
     bindE (var (clf s)) (\<lambda>est.
     bindE (var (X_train s)) (\<lambda>X.
     bindE (var (y_train s)) (\<lambda>y.
     bindE (fit w est X y) (\<lambda>est'.
     Inr (s\<lparr>clf := Some est', calls := calls s @ [Fit (params est) X y]\<rparr>)))))"

definition line51 :: "'m world \<Rightarrow> 'm step" where
  "line51 w s =
     bindE (var (clf s)) (\<lambda>est.
     bindE (var (X_test s)) (\<lambda>X.
     bindE (predict w est X) (\<lambda>p.
     Inr (s\<lparr>y_pred := Some p, calls := calls s @ [Predict (params est) X]\<rparr>))))"

definition line53 :: "'m world \<Rightarrow> 'm step" where
  "line53 w s =
     bindE (var (y_test s)) (\<lambda>y.
     bindE (var (y_pred s)) (\<lambda>p.
     bindE (classification_report w y p) (\<lambda>r.
     Inr (s\<lparr>console := console s @ [r], calls := calls s @ [ClassificationReport y p]\<rparr>))))"

definition line55 :: "'m step" where
  "line55 = end_run"

definition line61 :: "'m step" where
  "line61 s = bindE (var (X_train s)) (\<lambda>X. Inr (s\<lparr>console := console s @ [shape_line X]\<rparr>))"

definition line63 :: "'m step" where
  "line63 = start_run"

definition line64 :: "'m step" where
  "line64 s = Inr (s\<lparr>ada := Some \<lparr>params = AdaBoostClassifier, fitted = None\<rparr>\<rparr>)"

definition line66 :: "'m world \<Rightarrow> 'm step" where
  "line66 w s =
     bindE (var (ada s)) (\<lambda>est.
     bindE (var (X_train s)) (\<lambda>X.
     bindE (var (y_train s)) (\<lambda>y.
     bindE (fit w est X y) (\<lambda>est'.
     Inr (s\<lparr>ada := Some est', calls := calls s @ [Fit (params est) X y]\<rparr>)))))"

definition line68 :: "'m world \<Rightarrow> 'm step" where
  "line68 w s =
     bindE (var (ada s)) (\<lambda>est.
     bindE (var (X_test s)) (\<lambda>X.
     bindE (predict w est X) (\<lambda>p.
     Inr (s\<lparr>y_pred := Some p, calls := calls s @ [Predict (params est) X]\<rparr>))))"

definition line70 :: "'m world \<Rightarrow> 'm step" where
  "line70 w s =
     bindE (var (y_test s)) (\<lambda>y.
     bindE (var (y_pred s)) (\<lambda>p.
     bindE (classification_report w y p) (\<lambda>r.
     Inr (s\<lparr>console := console s @ [r], calls := calls s @ [ClassificationReport y p]\<rparr>))))"

definition line72 :: "'m step" where
  "line72 = end_run"

subsection \<open>The script\<close>

text \<open>
  The cells of the script (\<^verbatim>\<open># %%\<close>), each statement with its source line. The
  \<^verbatim>\<open>import\<close> statements (lines 2 to 9 and 59) bind library names and are taken to succeed.
\<close>

definition cell_load :: "'m world \<Rightarrow> (nat \<times> 'm step) list" where
  "cell_load w = [(13, line13 w), (19, line19 w)]"

definition cell_extract :: "(nat \<times> 'm step) list" where
  "cell_extract = [(26, line26), (29, line29), (32, line32), (35, line35)]"

definition cell_tracking :: "'m world \<Rightarrow> (nat \<times> 'm step) list" where
  "cell_tracking w = [(39, line39 w), (41, line41)]"

definition cell_gradient_boosting :: "'m world \<Rightarrow> (nat \<times> 'm step) list" where
  "cell_gradient_boosting w =
     [(45, line45), (47, line47), (48, line48), (49, line49 w), (51, line51 w),
      (53, line53 w), (55, line55)]"

definition cell_adaboost :: "'m world \<Rightarrow> (nat \<times> 'm step) list" where
  "cell_adaboost w =
     [(61, line61), (63, line63), (64, line64), (66, line66 w), (68, line68 w),
      (70, line70 w), (72, line72)]"

definition script :: "'m world \<Rightarrow> (nat \<times> 'm step) list" where
  "script w =
     cell_load w @ cell_extract @ cell_tracking w @ cell_gradient_boosting w @ cell_adaboost w"

text \<open>
  The interpreter runs the statements in order. Nothing in the script catches an
  exception, so the first statement that raises ends the process: the outcome keeps the
  line, the exception and the state as that statement found it.
\<close>

datatype 'm outcome = Finished "'m state" | Aborted nat error "'m state"

fun run :: "(nat \<times> 'm step) list \<Rightarrow> 'm state \<Rightarrow> 'm outcome" where
  "run [] s = Finished s"
| "run ((l, f) # ps) s =
     (case f s of Inl e \<Rightarrow> Aborted l e s | Inr s' \<Rightarrow> run ps s')"

text \<open>The states the script goes through: after each statement that returned, its line and the state.\<close>

fun history :: "(nat \<times> 'm step) list \<Rightarrow> 'm state \<Rightarrow> (nat \<times> 'm state) list" where
  "history [] s = []"
| "history ((l, f) # ps) s =
     (case f s of Inl e \<Rightarrow> [] | Inr s' \<Rightarrow> (l, s') # history ps s')"

definition main :: "'m world \<Rightarrow> 'm outcome" where
  "main w = run (script w) initial"

text \<open>
  Modelled from the spec: section 3 of the specification says that a run ``terminates
  explicitly (end) or implicitly on process exit if not ended''. MLflow does that with a
  hook it registers for interpreter exit, which ends the active run and swallows any
  exception of its own. The hook runs after the script, whether the script finished or
  an exception ended it; \<open>main\<close> is the script alone, \<open>process\<close> the script and the exit.
\<close>

definition exit_hook :: "'m state \<Rightarrow> 'm state" where
  "exit_hook s = (case end_run s of Inl e \<Rightarrow> s | Inr s' \<Rightarrow> s')"

definition process :: "'m world \<Rightarrow> 'm outcome" where
  "process w =
     (case main w of
        Finished s \<Rightarrow> Finished (exit_hook s)
      | Aborted l e s \<Rightarrow> Aborted l e (exit_hook s))"

fun state_of :: "'m outcome \<Rightarrow> 'm state" where
  "state_of (Finished s) = s"
| "state_of (Aborted l e s) = s"

fun raised_at :: "'m outcome \<Rightarrow> nat option" where
  "raised_at (Finished s) = None"
| "raised_at (Aborted l e s) = Some l"

subsection \<open>A small world\<close>

text \<open>
  A dataset of four clients and a world in which every library call returns. The theorems
  below are instantiated on it, and on variants of it in which one call raises or the
  generator draws another permutation.
\<close>

definition sample_frame :: dataframe where
  "sample_frame =
     \<lparr>columns = [''LIMIT_BAL'', ''AGE'', ''default payment next month''],
      rows = [(IntCell 1, [IntCell 20000, IntCell 24, IntCell 1]),
              (IntCell 2, [IntCell 120000, IntCell 26, IntCell 1]),
              (IntCell 3, [IntCell 90000, IntCell 34, IntCell 0]),
              (IntCell 4, [IntCell 50000, IntCell 37, IntCell 0])]\<rparr>"

definition sample_rng :: rng where
  "sample_rng =
     \<lparr>fresh_permutation = (\<lambda>n. rev [0..<n]), seeded_permutation = (\<lambda>seed n. [0..<n])\<rparr>"

definition sample_world :: "unit world" where
  "sample_world =
     \<lparr>read_csv = (\<lambda>url header index_col. Inr sample_frame),
      generator = sample_rng,
      tracking_backend = (\<lambda>name. None),
      fit_estimator = (\<lambda>c X y. Inr ()),
      predict_estimator = (\<lambda>m X. Inr (map (\<lambda>r. IntCell 0) (data X))),
      classification_report = (\<lambda>y p. Inr ''report'')\<rparr>"

definition fit_fails_world :: "unit world" where
  "fit_fails_world = sample_world\<lparr>fit_estimator := (\<lambda>c X y. Inl (LibraryError ''fit''))\<rparr>"

definition predict_fails_world :: "unit world" where
  "predict_fails_world =
     sample_world\<lparr>predict_estimator := (\<lambda>m X. Inl (LibraryError ''predict''))\<rparr>"

section \<open>Properties\<close>

subsection \<open>The frame and the splitter\<close>

lemma find_index_None: "find_index x xs = None \<longleftrightarrow> x \<notin> set xs"
  by (induction xs) auto

lemma find_index_Some:
  "find_index x xs = Some i \<Longrightarrow> i < length xs \<and> xs ! i = x \<and> drop_at i xs = remove1 x xs"
proof (induction xs arbitrary: i)
  case Nil
  then show ?case by simp
next
  case (Cons y ys)
  show ?case
  proof (cases "x = y")
    case True
    with Cons.prems show ?thesis by (simp add: drop_at_def)
  next
    case False
    with Cons.prems obtain j where j: "find_index x ys = Some j" "i = Suc j"
      by auto
    from Cons.IH [OF j(1)] j(2) False show ?thesis
      by (simp add: drop_at_def)
  qed
qed

lemma find_index_first: "find_index x xs = Some i \<Longrightarrow> j < i \<Longrightarrow> xs ! j \<noteq> x"
proof (induction xs arbitrary: i j)
  case Nil
  then show ?case by simp
next
  case (Cons y ys)
  show ?case
  proof (cases "x = y")
    case True
    with Cons.prems show ?thesis by simp
  next
    case False
    with Cons.prems obtain i' where i': "find_index x ys = Some i'" "i = Suc i'"
      by auto
    show ?thesis
    proof (cases j)
      case 0
      with False show ?thesis by auto
    next
      case (Suc j')
      with Cons.prems(2) i'(2) have "j' < i'" by simp
      from Cons.IH [OF i'(1) this] Suc show ?thesis by simp
    qed
  qed
qed

lemma n_test_quarter: "nat \<lceil>(1 / 4 :: rat) * of_nat n\<rceil> = (n + 3) div 4"
proof -
  have "\<lceil>(1 / 4 :: rat) * of_nat n\<rceil> = \<lceil>of_int (int n) / (of_int 4 :: rat)\<rceil>"
    by simp
  also have "\<dots> = - (- int n div 4)"
    by (simp only: ceiling_divide_eq_div)
  also have "\<dots> = int ((n + 3) div 4)"
    by (simp add: zdiv_int)
  finally show ?thesis by simp
qed

lemma perm_parts:
  assumes "permutes_rows p n" "k \<le> n"
  shows "distinct p" "length p = n" "set p = {0..<n}"
    "take (n - k) (drop k p) = drop k p"
proof -
  from assms(1) have m: "mset p = mset [0..<n]" by (simp add: permutes_rows_def)
  from m have "size (mset p) = size (mset [0..<n])" by simp
  then show len: "length p = n" by simp
  from m show "distinct p" by (metis distinct_upt mset_eq_imp_distinct_iff)
  from m show "set p = {0..<n}" by (metis mset_eq_setD set_upt)
  from len show "take (n - k) (drop k p) = drop k p" by simp
qed

lemma shuffle_split_Inr:
  assumes "shuffle_split g rs t n = Inr (itr, ite)"
  shows "0 < t \<and> t < 1 \<and> ite = take (nat \<lceil>t * of_nat n\<rceil>) (draw_permutation g rs n)
    \<and> itr = take (n - nat \<lceil>t * of_nat n\<rceil>) (drop (nat \<lceil>t * of_nat n\<rceil>) (draw_permutation g rs n))
    \<and> nat \<lceil>t * of_nat n\<rceil> < n"
  using assms by (auto simp: shuffle_split_def Let_def split: if_splits)

lemma iloc_Inr: "iloc df idx = Inr d \<Longrightarrow> columns d = columns df \<and> rows d = map (\<lambda>i. rows df ! i) idx \<and> (\<forall>i\<in>set idx. i < length (rows df))"
  by (auto simp: iloc_def list_all_iff split: if_splits)

lemma train_test_split_Inr:
  assumes "train_test_split g df t rs = Inr (tr, te)"
  shows "\<exists>itr ite. shuffle_split g rs t (length (rows df)) = Inr (itr, ite)
     \<and> iloc df itr = Inr tr \<and> iloc df ite = Inr te"
  using assms by (auto simp: train_test_split_def bindE_def split: sum.splits)

lemma iloc_total: "set idx \<subseteq> {0..<length (rows df)} \<Longrightarrow> iloc df idx = Inr (df\<lparr>rows := map (\<lambda>i. rows df ! i) idx\<rparr>)"
  by (auto simp: iloc_def list_all_iff)

lemma quarter_total:
  assumes p: "permutes_rows (draw_permutation g rs (length (rows df))) (length (rows df))"
    and n: "2 \<le> length (rows df)"
  shows "\<exists>tr te. train_test_split g df (1 / 4) rs = Inr (tr, te)"
proof -
  let ?n = "length (rows df)" and ?p = "draw_permutation g rs (length (rows df))"
  let ?k = "nat \<lceil>(1 / 4 :: rat) * of_nat ?n\<rceil>"
  have k: "?k < ?n" using n unfolding n_test_quarter by simp
  have sp: "set ?p = {0..<?n}" using perm_parts(3) [OF p order_refl] by simp
  have ss: "shuffle_split g rs (1 / 4) ?n = Inr (take (?n - ?k) (drop ?k ?p), take ?k ?p)"
    using k by (simp add: shuffle_split_def Let_def)
  have "set (take (?n - ?k) (drop ?k ?p)) \<subseteq> {0..<?n}"
    using sp set_take_subset [of "?n - ?k" "drop ?k ?p"] set_drop_subset [of ?k ?p] by blast
  moreover have "set (take ?k ?p) \<subseteq> {0..<?n}"
    using sp set_take_subset [of ?k ?p] by blast
  ultimately show ?thesis
    by (simp add: train_test_split_def ss bindE_def iloc_total)
qed

lemma split_partition:
  assumes p: "permutes_rows (draw_permutation g rs (length (rows df))) (length (rows df))"
    and s: "train_test_split g df t rs = Inr (tr, te)"
  shows "\<exists>ind_train ind_test.
           shuffle_split g rs t (length (rows df)) = Inr (ind_train, ind_test)
         \<and> rows tr = map (\<lambda>i. rows df ! i) ind_train
         \<and> rows te = map (\<lambda>i. rows df ! i) ind_test
         \<and> distinct ind_train \<and> distinct ind_test
         \<and> set ind_train \<inter> set ind_test = {}
         \<and> set ind_train \<union> set ind_test = {0..<length (rows df)}"
    and "length (rows tr) + length (rows te) = length (rows df)"
    and "mset (rows tr) + mset (rows te) = mset (rows df)"
    and "columns tr = columns df \<and> columns te = columns df"
proof -
  let ?n = "length (rows df)" and ?p = "draw_permutation g rs (length (rows df))"
  let ?k = "nat \<lceil>t * of_nat ?n\<rceil>"
  from train_test_split_Inr [OF s] obtain itr ite where
    ss: "shuffle_split g rs t ?n = Inr (itr, ite)" and tr: "iloc df itr = Inr tr"
    and te: "iloc df ite = Inr te" by blast
  from shuffle_split_Inr [OF ss] have ite: "ite = take ?k ?p"
    and itr0: "itr = take (?n - ?k) (drop ?k ?p)" and k: "?k < ?n" by simp_all
  from k have k': "?k \<le> ?n" by simp
  have itr: "itr = drop ?k ?p" using itr0 perm_parts(4) [OF p k'] by simp
  have app: "ite @ itr = ?p" by (simp add: ite itr)
  have d: "distinct ?p" and sp: "set ?p = {0..<?n}" and lp: "length ?p = ?n"
    using perm_parts [OF p k'] by simp_all
  have rtr: "rows tr = map (\<lambda>i. rows df ! i) itr" and rte: "rows te = map (\<lambda>i. rows df ! i) ite"
    using iloc_Inr [OF tr] iloc_Inr [OF te] by simp_all
  have dd: "distinct itr" "distinct ite" "set itr \<inter> set ite = {}"
    using d app by (metis distinct_append inf_commute)+
  have un: "set itr \<union> set ite = {0..<?n}"
    using sp app by (metis set_append sup_commute)
  show "\<exists>ind_train ind_test.
           shuffle_split g rs t (length (rows df)) = Inr (ind_train, ind_test)
         \<and> rows tr = map (\<lambda>i. rows df ! i) ind_train
         \<and> rows te = map (\<lambda>i. rows df ! i) ind_test
         \<and> distinct ind_train \<and> distinct ind_test
         \<and> set ind_train \<inter> set ind_test = {}
         \<and> set ind_train \<union> set ind_test = {0..<length (rows df)}"
    using ss rtr rte dd un by blast
  have "length itr + length ite = length ?p"
    using app by (metis add.commute length_append)
  then show "length (rows tr) + length (rows te) = length (rows df)"
    by (simp add: rtr rte lp)
  have "mset (rows tr) + mset (rows te) = mset (map (\<lambda>i. rows df ! i) (ite @ itr))"
    by (simp add: rtr rte)
  also have "\<dots> = image_mset (\<lambda>i. rows df ! i) (mset ?p)"
    by (simp only: app mset_map)
  also have "mset ?p = mset [0..<?n]"
    using p by (simp add: permutes_rows_def)
  also have "image_mset (\<lambda>i. rows df ! i) (mset [0..<?n]) = mset (map (\<lambda>i. rows df ! i) [0..<?n])"
    by (simp only: mset_map)
  also have "map (\<lambda>i. rows df ! i) [0..<?n] = rows df"
    by (rule map_nth)
  finally show "mset (rows tr) + mset (rows te) = mset (rows df)" .
  show "columns tr = columns df \<and> columns te = columns df"
    using iloc_Inr [OF tr] iloc_Inr [OF te] by simp
qed


lemma iloc_keeps_wf:
  assumes "wf_frame df" "iloc df idx = Inr d"
  shows "wf_frame d"
proof -
  from iloc_Inr [OF assms(2)] have c: "columns d = columns df"
    and r: "rows d = map (\<lambda>i. rows df ! i) idx" and i: "\<forall>i\<in>set idx. i < length (rows df)"
    by simp_all
  from i have "set (rows d) \<subseteq> set (rows df)" by (auto simp: r)
  with assms(1) show ?thesis by (auto simp: wf_frame_def c list_all_iff)
qed

lemma count_list_distinct: "distinct xs \<Longrightarrow> x \<in> set xs \<Longrightarrow> count_list xs x = 1"
  by (induction xs) auto

lemma filter_neq_distinct:
  "distinct xs \<Longrightarrow> find_index x xs = Some k \<Longrightarrow> filter (\<lambda>c. c \<noteq> x) xs = take k xs @ drop (Suc k) xs"
proof (induction xs arbitrary: k)
  case Nil
  then show ?case by simp
next
  case (Cons y ys)
  show ?case
  proof (cases "x = y")
    case True
    with Cons.prems have "k = 0" and "x \<notin> set ys" by auto
    then have "filter (\<lambda>c. c \<noteq> x) ys = ys" by (auto intro: filter_True)
    with True \<open>k = 0\<close> show ?thesis by simp
  next
    case False
    with Cons.prems obtain j where j: "find_index x ys = Some j" "k = Suc j"
      by auto
    from Cons.prems have "distinct ys" by simp
    from Cons.IH [OF this j(1)] j(2) False show ?thesis by auto
  qed
qed

lemma cells_beside_distinct:
  "distinct labels \<Longrightarrow> find_index item labels = Some k \<Longrightarrow> length cells = length labels \<Longrightarrow>
     cells_beside item labels cells = take k cells @ drop (Suc k) cells"
proof (induction labels arbitrary: k cells)
  case Nil
  then show ?case by simp
next
  case (Cons y ys)
  from Cons.prems(3) obtain c cs where cells: "cells = c # cs" and len: "length cs = length ys"
    by (cases cells) auto
  show ?case
  proof (cases "item = y")
    case True
    with Cons.prems have k: "k = 0" and "item \<notin> set ys" by auto
    then have "filter (\<lambda>p. fst p \<noteq> item) (zip ys cs) = zip ys cs"
      by (auto intro!: filter_True dest: set_zip_leftD)
    with True k len show ?thesis by (simp add: cells cells_beside_def)
  next
    case False
    with Cons.prems obtain j where j: "find_index item ys = Some j" "k = Suc j"
      by auto
    from Cons.prems have "distinct ys" by simp
    from Cons.IH [OF this j(1) len] j(2) False show ?thesis
      by (simp add: cells cells_beside_def)
  qed
qed

lemma getitem_absent: "item \<notin> set (columns df) \<Longrightarrow> getitem df item = Inl KeyError"
  using find_index_None [of item "columns df"] by (simp add: getitem_def)

lemma getitem_present:
  assumes "item \<in> set (columns df)"
  shows "\<exists>k. find_index item (columns df) = Some k \<and> k < length (columns df)
     \<and> columns df ! k = item
     \<and> getitem df item =
         Inr (if count_list (columns df) item = 1
              then Series (map (\<lambda>r. (fst r, snd r ! k)) (rows df))
              else Frame
                 \<lparr>columns = filter (\<lambda>c. c = item) (columns df),
                  rows = map (\<lambda>r. (fst r, cells_under item (columns df) (snd r))) (rows df)\<rparr>)"
proof -
  from assms obtain k where k: "find_index item (columns df) = Some k"
    using find_index_None [of item "columns df"] by (cases "find_index item (columns df)") auto
  from find_index_Some [OF k] show ?thesis
    by (simp add: getitem_def k)
qed

lemma pop_absent: "item \<notin> set (columns df) \<Longrightarrow> pop df item = (Inl KeyError, df)"
  by (simp add: pop_def getitem_absent)

lemma pop_present:
  assumes "item \<in> set (columns df)"
  shows "\<exists>k. find_index item (columns df) = Some k \<and> k < length (columns df)
     \<and> columns df ! k = item
     \<and> pop df item =
         (Inr (if count_list (columns df) item = 1
               then Series (map (\<lambda>r. (fst r, snd r ! k)) (rows df))
               else Frame
                  \<lparr>columns = filter (\<lambda>c. c = item) (columns df),
                   rows = map (\<lambda>r. (fst r, cells_under item (columns df) (snd r))) (rows df)\<rparr>),
          delitem df item)"
proof -
  from getitem_present [OF assms] obtain k where k: "find_index item (columns df) = Some k"
    "k < length (columns df)" "columns df ! k = item"
    and g: "getitem df item =
         Inr (if count_list (columns df) item = 1
              then Series (map (\<lambda>r. (fst r, snd r ! k)) (rows df))
              else Frame
                 \<lparr>columns = filter (\<lambda>c. c = item) (columns df),
                  rows = map (\<lambda>r. (fst r, cells_under item (columns df) (snd r))) (rows df)\<rparr>)"
    by blast
  have "pop df item = (getitem df item, delitem df item)"
    by (simp add: pop_def g)
  with k g show ?thesis by simp
qed

lemma pop_wf:
  assumes wf: "wf_frame df" and item: "item \<in> set (columns df)"
  shows "\<exists>k. find_index item (columns df) = Some k \<and> k < length (columns df)
     \<and> columns df ! k = item
     \<and> fst (pop df item) = Inr (Series (map (\<lambda>r. (fst r, snd r ! k)) (rows df)))
     \<and> columns (snd (pop df item)) = take k (columns df) @ drop (Suc k) (columns df)
     \<and> rows (snd (pop df item)) =
          map (\<lambda>r. (fst r, take k (snd r) @ drop (Suc k) (snd r))) (rows df)"
proof -
  from wf have d: "distinct (columns df)"
    and rect: "\<And>r. r \<in> set (rows df) \<Longrightarrow> length (snd r) = length (columns df)"
    by (simp_all add: wf_frame_def list_all_iff)
  from pop_present [OF item] obtain k where k: "find_index item (columns df) = Some k"
    "k < length (columns df)" "columns df ! k = item"
    and p: "pop df item =
         (Inr (if count_list (columns df) item = 1
               then Series (map (\<lambda>r. (fst r, snd r ! k)) (rows df))
               else Frame
                  \<lparr>columns = filter (\<lambda>c. c = item) (columns df),
                   rows = map (\<lambda>r. (fst r, cells_under item (columns df) (snd r))) (rows df)\<rparr>),
          delitem df item)"
    by blast
  have one: "count_list (columns df) item = 1"
    by (rule count_list_distinct [OF d item])
  have c: "columns (delitem df item) = take k (columns df) @ drop (Suc k) (columns df)"
    by (simp add: delitem_def filter_neq_distinct [OF d k(1)])
  have "\<And>r. r \<in> set (rows df) \<Longrightarrow>
      cells_beside item (columns df) (snd r) = take k (snd r) @ drop (Suc k) (snd r)"
    by (rule cells_beside_distinct [OF d k(1)]) (rule rect)
  then have r: "rows (delitem df item) =
      map (\<lambda>r. (fst r, take k (snd r) @ drop (Suc k) (snd r))) (rows df)"
    by (simp add: delitem_def)
  from k one c r show ?thesis by (simp add: p)
qed

lemma pop_values_shape:
  assumes wf: "wf_frame df" and item: "item \<in> set (columns df)"
  shows "\<exists>y k. fst (pop df item) = Inr (Series y) \<and> find_index item (columns df) = Some k
     \<and> shape (values_of (snd (pop df item))) = (length (rows df), length (columns df) - 1)
     \<and> length (data (values_of (snd (pop df item)))) = length (rows df)
     \<and> list_all (\<lambda>r. length r = length (columns df) - 1) (data (values_of (snd (pop df item))))
     \<and> length y = length (rows df)
     \<and> (\<forall>i<length (rows df).
           y ! i = (fst (rows df ! i), snd (rows df ! i) ! k)
         \<and> data (values_of (snd (pop df item))) ! i = drop_at k (snd (rows df ! i)))"
proof -
  from pop_wf [OF wf item] obtain k where k: "find_index item (columns df) = Some k"
    and kl: "k < length (columns df)"
    and y: "fst (pop df item) = Inr (Series (map (\<lambda>r. (fst r, snd r ! k)) (rows df)))"
    and c: "columns (snd (pop df item)) = take k (columns df) @ drop (Suc k) (columns df)"
    and r: "rows (snd (pop df item)) =
          map (\<lambda>r. (fst r, take k (snd r) @ drop (Suc k) (snd r))) (rows df)"
    by blast
  have lc: "length (columns (snd (pop df item))) = length (columns df) - 1"
    using kl by (simp add: c)
  have rect: "\<And>r. r \<in> set (rows df) \<Longrightarrow>
      length (take k (snd r) @ drop (Suc k) (snd r)) = length (columns df) - 1"
    using wf kl by (auto simp: wf_frame_def list_all_iff)
  have "list_all (\<lambda>r. length r = length (columns df) - 1) (data (values_of (snd (pop df item))))"
    using rect by (simp add: values_of_def r list_all_iff)
  then show ?thesis
    using y k lc by (simp add: values_of_def r drop_at_def)
qed

text \<open>
  Claim C2. For a partition of a dataset that has the label column, popping the label
  and taking the values gives a feature matrix with the partition's row count and the
  dataset's column count minus one, and a label vector of the partition's row count;
  row \<open>i\<close> of both comes from row \<open>i\<close> of the partition.
\<close>

theorem label_extractor_shapes:
  assumes "wf_frame dataset" and "item \<in> set (columns dataset)"
    and "train_test_split g dataset test_size random_state = Inr (train, test)"
    and "part = train \<or> part = test"
  shows "\<exists>y k. fst (pop part item) = Inr (Series y) \<and> find_index item (columns part) = Some k
     \<and> shape (values_of (snd (pop part item))) = (length (rows part), length (columns dataset) - 1)
     \<and> length (data (values_of (snd (pop part item)))) = length (rows part)
     \<and> list_all (\<lambda>r. length r = length (columns dataset) - 1)
          (data (values_of (snd (pop part item))))
     \<and> length y = length (rows part)
     \<and> (\<forall>i<length (rows part).
           y ! i = (fst (rows part ! i), snd (rows part ! i) ! k)
         \<and> data (values_of (snd (pop part item))) ! i = drop_at k (snd (rows part ! i)))"
proof -
  from train_test_split_Inr [OF assms(3)] obtain itr ite where
    "iloc dataset itr = Inr train" "iloc dataset ite = Inr test" by blast
  with assms(4) obtain idx where idx: "iloc dataset idx = Inr part" by blast
  have wf: "wf_frame part" by (rule iloc_keeps_wf [OF assms(1) idx])
  have c: "columns part = columns dataset" using iloc_Inr [OF idx] by simp
  from assms(2) have "item \<in> set (columns part)" by (simp add: c)
  from pop_values_shape [OF wf this] show ?thesis by (simp only: c)
qed

text \<open>
  Claim C3. The pop fails if and only if the frame has no column of that name; the
  failure is a \<^verbatim>\<open>KeyError\<close> and leaves the frame as it was. Otherwise the frame loses
  every column of that name, from the header and from each row, and nothing else. On a
  frame as pandas parses it (unique labels, one cell per column) the result is the label
  vector, row \<open>i\<close> holding the index label of row \<open>i\<close> and its cell under the named
  column, and the feature matrix is each row without that cell.
\<close>

theorem pop_fails_iff_column_absent:
  "((\<exists>e. fst (pop df item) = Inl e) \<longleftrightarrow> item \<notin> set (columns df))
   \<and> (item \<notin> set (columns df) \<longrightarrow> pop df item = (Inl KeyError, df))
   \<and> (item \<in> set (columns df) \<longrightarrow>
        (\<exists>k. k < length (columns df) \<and> columns df ! k = item
           \<and> (\<forall>j<k. columns df ! j \<noteq> item)
           \<and> fst (pop df item) =
               Inr (if count_list (columns df) item = 1
                    then Series (map (\<lambda>r. (fst r, snd r ! k)) (rows df))
                    else Frame
                       \<lparr>columns = filter (\<lambda>c. c = item) (columns df),
                        rows = map (\<lambda>r. (fst r,
                                  map snd (filter (\<lambda>p. fst p = item) (zip (columns df) (snd r)))))
                                 (rows df)\<rparr>))
      \<and> columns (snd (pop df item)) = filter (\<lambda>c. c \<noteq> item) (columns df)
      \<and> item \<notin> set (columns (snd (pop df item)))
      \<and> rows (snd (pop df item)) =
           map (\<lambda>r. (fst r, map snd (filter (\<lambda>p. fst p \<noteq> item) (zip (columns df) (snd r)))))
             (rows df))
   \<and> (item \<in> set (columns df) \<and> wf_frame df \<longrightarrow>
        (\<exists>k. k < length (columns df) \<and> columns df ! k = item
           \<and> fst (pop df item) = Inr (Series (map (\<lambda>r. (fst r, snd r ! k)) (rows df)))
           \<and> columns (snd (pop df item)) = take k (columns df) @ drop (Suc k) (columns df)
           \<and> rows (snd (pop df item)) =
                map (\<lambda>r. (fst r, take k (snd r) @ drop (Suc k) (snd r))) (rows df)
           \<and> data (values_of (snd (pop df item))) =
                map (\<lambda>r. take k (snd r) @ drop (Suc k) (snd r)) (rows df)
           \<and> shape (values_of (snd (pop df item))) =
                (length (rows df), length (columns df) - 1)))"
proof (cases "item \<in> set (columns df)")
  case True
  from pop_present [OF True] obtain k where k: "find_index item (columns df) = Some k"
    "k < length (columns df)" "columns df ! k = item"
    and p: "pop df item =
         (Inr (if count_list (columns df) item = 1
               then Series (map (\<lambda>r. (fst r, snd r ! k)) (rows df))
               else Frame
                  \<lparr>columns = filter (\<lambda>c. c = item) (columns df),
                   rows = map (\<lambda>r. (fst r, cells_under item (columns df) (snd r))) (rows df)\<rparr>),
          delitem df item)"
    by blast
  have first: "\<forall>j<k. columns df ! j \<noteq> item"
    using find_index_first [OF k(1)] by blast
  have result: "fst (pop df item) =
               Inr (if count_list (columns df) item = 1
                    then Series (map (\<lambda>r. (fst r, snd r ! k)) (rows df))
                    else Frame
                       \<lparr>columns = filter (\<lambda>c. c = item) (columns df),
                        rows = map (\<lambda>r. (fst r,
                                  map snd (filter (\<lambda>p. fst p = item) (zip (columns df) (snd r)))))
                                 (rows df)\<rparr>)"
    by (simp add: p cells_under_def)
  have left: "columns (snd (pop df item)) = filter (\<lambda>c. c \<noteq> item) (columns df)"
    "item \<notin> set (columns (snd (pop df item)))"
    "rows (snd (pop df item)) =
           map (\<lambda>r. (fst r, map snd (filter (\<lambda>p. fst p \<noteq> item) (zip (columns df) (snd r)))))
             (rows df)"
    by (simp_all add: p delitem_def cells_beside_def)
  have general: "(\<exists>k. k < length (columns df) \<and> columns df ! k = item
           \<and> (\<forall>j<k. columns df ! j \<noteq> item)
           \<and> fst (pop df item) =
               Inr (if count_list (columns df) item = 1
                    then Series (map (\<lambda>r. (fst r, snd r ! k)) (rows df))
                    else Frame
                       \<lparr>columns = filter (\<lambda>c. c = item) (columns df),
                        rows = map (\<lambda>r. (fst r,
                                  map snd (filter (\<lambda>p. fst p = item) (zip (columns df) (snd r)))))
                                 (rows df)\<rparr>))
      \<and> columns (snd (pop df item)) = filter (\<lambda>c. c \<noteq> item) (columns df)
      \<and> item \<notin> set (columns (snd (pop df item)))
      \<and> rows (snd (pop df item)) =
           map (\<lambda>r. (fst r, map snd (filter (\<lambda>p. fst p \<noteq> item) (zip (columns df) (snd r)))))
             (rows df)"
    using k(2,3) first result left by blast
  have "wf_frame df \<longrightarrow>
        (\<exists>k. k < length (columns df) \<and> columns df ! k = item
           \<and> fst (pop df item) = Inr (Series (map (\<lambda>r. (fst r, snd r ! k)) (rows df)))
           \<and> columns (snd (pop df item)) = take k (columns df) @ drop (Suc k) (columns df)
           \<and> rows (snd (pop df item)) =
                map (\<lambda>r. (fst r, take k (snd r) @ drop (Suc k) (snd r))) (rows df)
           \<and> data (values_of (snd (pop df item))) =
                map (\<lambda>r. take k (snd r) @ drop (Suc k) (snd r)) (rows df)
           \<and> shape (values_of (snd (pop df item))) =
                (length (rows df), length (columns df) - 1))"
  proof
    assume wf: "wf_frame df"
    from pop_wf [OF wf True] obtain k where k: "k < length (columns df)" "columns df ! k = item"
      and y: "fst (pop df item) = Inr (Series (map (\<lambda>r. (fst r, snd r ! k)) (rows df)))"
      and c: "columns (snd (pop df item)) = take k (columns df) @ drop (Suc k) (columns df)"
      and r: "rows (snd (pop df item)) =
          map (\<lambda>r. (fst r, take k (snd r) @ drop (Suc k) (snd r))) (rows df)"
      by blast
    have d: "data (values_of (snd (pop df item))) =
                map (\<lambda>r. take k (snd r) @ drop (Suc k) (snd r)) (rows df)"
      by (simp add: values_of_def r comp_def)
    have sh: "shape (values_of (snd (pop df item))) = (length (rows df), length (columns df) - 1)"
      using k(1) by (simp add: values_of_def r c)
    from k y c r d sh show "\<exists>k. k < length (columns df) \<and> columns df ! k = item
           \<and> fst (pop df item) = Inr (Series (map (\<lambda>r. (fst r, snd r ! k)) (rows df)))
           \<and> columns (snd (pop df item)) = take k (columns df) @ drop (Suc k) (columns df)
           \<and> rows (snd (pop df item)) =
                map (\<lambda>r. (fst r, take k (snd r) @ drop (Suc k) (snd r))) (rows df)
           \<and> data (values_of (snd (pop df item))) =
                map (\<lambda>r. take k (snd r) @ drop (Suc k) (snd r)) (rows df)
           \<and> shape (values_of (snd (pop df item))) =
                (length (rows df), length (columns df) - 1)"
      by blast
  qed
  note wf_case = this
  have nofail: "\<not> (\<exists>e. fst (pop df item) = Inl e)"
    by (simp add: p)
  have absent_case: "item \<notin> set (columns df) \<longrightarrow> pop df item = (Inl KeyError, df)"
    using True by simp
  have iff: "(\<exists>e. fst (pop df item) = Inl e) \<longleftrightarrow> item \<notin> set (columns df)"
    using nofail True by simp
  show ?thesis
    by (intro conjI impI) (rule iff, rule absent_case [rule_format], assumption,
      rule general [THEN conjunct1], rule general [THEN conjunct2, THEN conjunct1],
      rule general [THEN conjunct2, THEN conjunct2, THEN conjunct1],
      rule general [THEN conjunct2, THEN conjunct2, THEN conjunct2],
      rule wf_case [rule_format], erule conjunct2)
next
  case False
  then show ?thesis by (simp add: pop_absent)
qed


text \<open>
  Claim C1. The splitter partitions the rows of the dataset: whenever it returns a train
  and a test partition, their sizes add up to the size of the dataset, the row positions
  they take are disjoint and together are all positions, and every row of the dataset
  is in exactly one of the two (as multisets, train plus test is the dataset). With the
  script's test fraction it returns for every dataset of two rows or more.
\<close>

theorem splitter_partitions:
  assumes "permutes_rows (draw_permutation g random_state (length (rows df))) (length (rows df))"
  shows "(2 \<le> length (rows df) \<longrightarrow>
            (\<exists>train test. train_test_split g df (1 / 4) random_state = Inr (train, test)))
       \<and> (\<forall>train test. train_test_split g df test_size random_state = Inr (train, test) \<longrightarrow>
            length (rows train) + length (rows test) = length (rows df)
          \<and> mset (rows train) + mset (rows test) = mset (rows df)
          \<and> (\<exists>ind_train ind_test.
                shuffle_split g random_state test_size (length (rows df)) = Inr (ind_train, ind_test)
              \<and> rows train = map (\<lambda>i. rows df ! i) ind_train
              \<and> rows test = map (\<lambda>i. rows df ! i) ind_test
              \<and> distinct ind_train \<and> distinct ind_test
              \<and> set ind_train \<inter> set ind_test = {}
              \<and> set ind_train \<union> set ind_test = {0..<length (rows df)}))"
  using quarter_total [OF assms] split_partition [OF assms] by blast

theorem splitter_partitions_witness:
  "\<exists>train test.
     train_test_split \<lparr>fresh_permutation = (\<lambda>n. rev [0..<n]), seeded_permutation = (\<lambda>seed n. [0..<n])\<rparr>
       \<lparr>columns = [''x'', ''y''],
          rows = [(IntCell 1, [IntCell 10, IntCell 0]), (IntCell 2, [IntCell 20, IntCell 1]),
                  (IntCell 3, [IntCell 30, IntCell 0]), (IntCell 4, [IntCell 40, IntCell 1])]\<rparr> (1 / 4) None = Inr (train, test)
   \<and> length (rows train) = 3 \<and> length (rows test) = 1
   \<and> mset (rows train) + mset (rows test) = mset (rows \<lparr>columns = [''x'', ''y''],
          rows = [(IntCell 1, [IntCell 10, IntCell 0]), (IntCell 2, [IntCell 20, IntCell 1]),
                  (IntCell 3, [IntCell 30, IntCell 0]), (IntCell 4, [IntCell 40, IntCell 1])]\<rparr>)"
proof -
  let ?g = "\<lparr>fresh_permutation = (\<lambda>n. rev [0..<n]), seeded_permutation = (\<lambda>seed n. [0..<n])\<rparr>"
  let ?df = "\<lparr>columns = [''x'', ''y''],
          rows = [(IntCell 1, [IntCell 10, IntCell 0]), (IntCell 2, [IntCell 20, IntCell 1]),
                  (IntCell 3, [IntCell 30, IntCell 0]), (IntCell 4, [IntCell 40, IntCell 1])]\<rparr>"
  have p: "permutes_rows (draw_permutation ?g None (length (rows ?df))) (length (rows ?df))"
    by (simp add: permutes_rows_def draw_permutation_def upt_rec_numeral)
  have n: "2 \<le> length (rows ?df)" by simp
  from splitter_partitions [OF p, of "1 / 4"] n obtain train test where
    t: "train_test_split ?g ?df (1 / 4) None = Inr (train, test)"
    and m: "mset (rows train) + mset (rows test) = mset (rows ?df)"
    by blast
  from t have "length (rows train) = 3 \<and> length (rows test) = 1"
    by (auto simp: train_test_split_def shuffle_split_def n_test_quarter draw_permutation_def
        iloc_def bindE_def Let_def upt_rec_numeral)
  with t m show ?thesis by blast
qed

theorem label_extractor_shapes_witness:
  "\<exists>train test y.
     train_test_split \<lparr>fresh_permutation = (\<lambda>n. rev [0..<n]), seeded_permutation = (\<lambda>seed n. [0..<n])\<rparr>
       \<lparr>columns = [''x'', ''y''],
          rows = [(IntCell 1, [IntCell 10, IntCell 0]), (IntCell 2, [IntCell 20, IntCell 1]),
                  (IntCell 3, [IntCell 30, IntCell 0]), (IntCell 4, [IntCell 40, IntCell 1])]\<rparr> (1 / 4) None = Inr (train, test)
   \<and> fst (pop train ''y'') = Inr (Series y)
   \<and> shape (values_of (snd (pop train ''y''))) = (3, 1)
   \<and> length y = 3"
proof -
  let ?g = "\<lparr>fresh_permutation = (\<lambda>n. rev [0..<n]), seeded_permutation = (\<lambda>seed n. [0..<n])\<rparr>"
  let ?df = "\<lparr>columns = [''x'', ''y''],
          rows = [(IntCell 1, [IntCell 10, IntCell 0]), (IntCell 2, [IntCell 20, IntCell 1]),
                  (IntCell 3, [IntCell 30, IntCell 0]), (IntCell 4, [IntCell 40, IntCell 1])]\<rparr>"
  have w: "wf_frame ?df" by (simp add: wf_frame_def)
  have i: "''y'' \<in> set (columns ?df)" by simp
  have "\<exists>train test. train_test_split ?g ?df (1 / 4) None = Inr (train, test) \<and> length (rows train) = 3"
    by (simp add: train_test_split_def shuffle_split_def n_test_quarter draw_permutation_def
        iloc_def bindE_def Let_def upt_rec_numeral)
  then obtain train test where t: "train_test_split ?g ?df (1 / 4) None = Inr (train, test)"
    and l: "length (rows train) = 3" by blast
  from label_extractor_shapes [OF w i t, of train] l t show ?thesis
    by auto
qed

theorem pop_fails_iff_column_absent_witness:
  "pop sample_frame ''SEX'' = (Inl KeyError, sample_frame)
   \<and> fst (pop sample_frame ''AGE'') =
        Inr (Series [(IntCell 1, IntCell 24), (IntCell 2, IntCell 26),
                     (IntCell 3, IntCell 34), (IntCell 4, IntCell 37)])
   \<and> columns (snd (pop sample_frame ''AGE'')) = [''LIMIT_BAL'', ''default payment next month'']
   \<and> rows (snd (pop sample_frame ''AGE'')) =
        [(IntCell 1, [IntCell 20000, IntCell 1]), (IntCell 2, [IntCell 120000, IntCell 1]),
         (IntCell 3, [IntCell 90000, IntCell 0]), (IntCell 4, [IntCell 50000, IntCell 0])]
   \<and> snd (pop \<lparr>columns = [''a'', ''b'', ''a''],
                rows = [(IntCell 1, [IntCell 7, IntCell 8, IntCell 9])]\<rparr> ''a'') =
        \<lparr>columns = [''b''], rows = [(IntCell 1, [IntCell 8])]\<rparr>"
proof -
  have absent: "''SEX'' \<notin> set (columns sample_frame)"
    by (simp add: sample_frame_def)
  have present: "''AGE'' \<in> set (columns sample_frame) \<and> wf_frame sample_frame"
    by (simp add: sample_frame_def wf_frame_def)
  from pop_fails_iff_column_absent [of sample_frame "''SEX''"] absent
  have a: "pop sample_frame ''SEX'' = (Inl KeyError, sample_frame)"
    by blast
  from pop_fails_iff_column_absent [of sample_frame "''AGE''"] present
  obtain k where k: "k < length (columns sample_frame)" "columns sample_frame ! k = ''AGE''"
    and y: "fst (pop sample_frame ''AGE'') =
        Inr (Series (map (\<lambda>r. (fst r, snd r ! k)) (rows sample_frame)))"
    and c: "columns (snd (pop sample_frame ''AGE'')) =
        take k (columns sample_frame) @ drop (Suc k) (columns sample_frame)"
    and r: "rows (snd (pop sample_frame ''AGE'')) =
        map (\<lambda>r. (fst r, take k (snd r) @ drop (Suc k) (snd r))) (rows sample_frame)"
    by blast
  from k(1) have "k = 0 \<or> k = 1 \<or> k = 2"
    by (auto simp: sample_frame_def)
  with k(2) have k1: "k = 1"
    by (auto simp: sample_frame_def)
  let ?twice = "\<lparr>columns = [''a'', ''b'', ''a''],
                rows = [(IntCell 1, [IntCell 7, IntCell 8, IntCell 9])]\<rparr>"
  from pop_fails_iff_column_absent [of ?twice "''a''"]
  have "columns (snd (pop ?twice ''a'')) = [''b'']
      \<and> rows (snd (pop ?twice ''a'')) = [(IntCell 1, [IntCell 8])]"
    by simp
  then have t: "snd (pop ?twice ''a'') = \<lparr>columns = [''b''], rows = [(IntCell 1, [IntCell 8])]\<rparr>"
    by (cases "snd (pop ?twice ''a'')") simp
  from a y c r t show ?thesis
    unfolding k1 by (simp add: sample_frame_def)
qed

subsection \<open>Running the script\<close>

lemmas cell_defs = cell_load_def cell_extract_def cell_tracking_def cell_gradient_boosting_def
  cell_adaboost_def

lemma bindE_Inr_iff: "bindE m f = Inr y \<longleftrightarrow> (\<exists>x. m = Inr x \<and> f x = Inr y)"
  by (cases m) (simp_all add: bindE_def)

lemma var_Inr_iff: "var v = Inr x \<longleftrightarrow> v = Some x"
  by (cases v) (simp_all add: var_def)

lemma line13_Inr: "line13 w s = Inr s' \<longleftrightarrow>
  (\<exists>df. read_csv w dataset_url 1 0 = Inr df
     \<and> s' = s\<lparr>credit_df := Some df, calls := calls s @ [ReadCsv dataset_url]\<rparr>)"
  by (auto simp: line13_def bindE_Inr_iff)

lemma line19_Inr: "line19 w s = Inr s' \<longleftrightarrow>
  (\<exists>df tr te. credit_df s = Some df
     \<and> train_test_split (generator w) df (1 / 4) None = Inr (tr, te)
     \<and> s' = s\<lparr>train_df := Some tr, test_df := Some te,
            calls := calls s @ [TrainTestSplit df (1 / 4) None]\<rparr>)"
  by (auto simp: line19_def bindE_Inr_iff var_Inr_iff)

lemma line26_Inr: "line26 s = Inr s' \<longleftrightarrow>
  (\<exists>df y. train_df s = Some df \<and> fst (pop df label_column) = Inr y
     \<and> s' = s\<lparr>train_df := Some (snd (pop df label_column)), y_train := Some y,
            calls := calls s @ [Pop df label_column]\<rparr>)"
  by (auto simp: line26_def bindE_Inr_iff var_Inr_iff)

lemma line29_Inr: "line29 s = Inr s' \<longleftrightarrow>
  (\<exists>df. train_df s = Some df \<and> s' = s\<lparr>X_train := Some (values_of df)\<rparr>)"
  by (auto simp: line29_def bindE_Inr_iff var_Inr_iff)

lemma line32_Inr: "line32 s = Inr s' \<longleftrightarrow>
  (\<exists>df y. test_df s = Some df \<and> fst (pop df label_column) = Inr y
     \<and> s' = s\<lparr>test_df := Some (snd (pop df label_column)), y_test := Some y,
            calls := calls s @ [Pop df label_column]\<rparr>)"
  by (auto simp: line32_def bindE_Inr_iff var_Inr_iff)

lemma line35_Inr: "line35 s = Inr s' \<longleftrightarrow>
  (\<exists>df. test_df s = Some df \<and> s' = s\<lparr>X_test := Some (values_of df)\<rparr>)"
  by (auto simp: line35_def bindE_Inr_iff var_Inr_iff)

lemma line39_Inr: "line39 w s = Inr s' \<longleftrightarrow>
  (tracking_backend w experiment_name = None
     \<and> s' = s\<lparr>current_experiment := Some experiment_name,
            calls := calls s @ [SetExperiment experiment_name]\<rparr>)"
  by (auto simp: line39_def split: option.splits)

lemma line41_Inr: "line41 s = Inr s' \<longleftrightarrow>
  s' = s\<lparr>autolog_enabled := True, calls := calls s @ [Autolog]\<rparr>"
  by (auto simp: line41_def)

lemma line45_Inr: "line45 s = Inr s' \<longleftrightarrow>
  (\<exists>X. X_train s = Some X \<and> s' = s\<lparr>console := console s @ [shape_line X]\<rparr>)"
  by (auto simp: line45_def bindE_Inr_iff var_Inr_iff)

lemma start_run_Inr: "start_run s = Inr s' \<longleftrightarrow>
  (active_run_stack s = []
     \<and> s' = s\<lparr>active_run_stack := [runs_created s], runs_created := Suc (runs_created s),
            calls := calls s @ [StartRun (runs_created s)]\<rparr>)"
  by (auto simp: start_run_def)

lemma end_run_Inr: "end_run s = Inr s' \<longleftrightarrow>
  (case active_run_stack s of
     [] \<Rightarrow> s' = s
   | r # rs \<Rightarrow> s' = s\<lparr>active_run_stack := rs, calls := calls s @ [EndRun r]\<rparr>)"
  by (auto simp: end_run_def split: list.splits)

lemma line48_Inr: "line48 s = Inr s' \<longleftrightarrow>
  s' = s\<lparr>clf := Some \<lparr>params = GradientBoostingClassifier 100 (1 / 10), fitted = None\<rparr>\<rparr>"
  by (auto simp: line48_def)

lemma fit_Inr: "fit w est X y = Inr est' \<longleftrightarrow>
  (\<exists>m. fit_estimator w (params est) X y = Inr m \<and> est' = est\<lparr>fitted := Some m\<rparr>)"
  by (auto simp: fit_def bindE_Inr_iff)

lemma line49_Inr: "line49 w s = Inr s' \<longleftrightarrow>
  (\<exists>est X y m. clf s = Some est \<and> X_train s = Some X \<and> y_train s = Some y
     \<and> fit_estimator w (params est) X y = Inr m
     \<and> s' = s\<lparr>clf := Some (est\<lparr>fitted := Some m\<rparr>),
            calls := calls s @ [Fit (params est) X y]\<rparr>)"
  by (auto simp: line49_def bindE_Inr_iff var_Inr_iff fit_Inr)

lemma line51_Inr: "line51 w s = Inr s' \<longleftrightarrow>
  (\<exists>est X p. clf s = Some est \<and> X_test s = Some X \<and> predict w est X = Inr p
     \<and> s' = s\<lparr>y_pred := Some p, calls := calls s @ [Predict (params est) X]\<rparr>)"
  by (auto simp: line51_def bindE_Inr_iff var_Inr_iff)

lemma line53_Inr: "line53 w s = Inr s' \<longleftrightarrow>
  (\<exists>y p r. y_test s = Some y \<and> y_pred s = Some p \<and> classification_report w y p = Inr r
     \<and> s' = s\<lparr>console := console s @ [r], calls := calls s @ [ClassificationReport y p]\<rparr>)"
  by (auto simp: line53_def bindE_Inr_iff var_Inr_iff)

lemma line61_Inr: "line61 s = Inr s' \<longleftrightarrow>
  (\<exists>X. X_train s = Some X \<and> s' = s\<lparr>console := console s @ [shape_line X]\<rparr>)"
  by (auto simp: line61_def bindE_Inr_iff var_Inr_iff)

lemma line64_Inr: "line64 s = Inr s' \<longleftrightarrow>
  s' = s\<lparr>ada := Some \<lparr>params = AdaBoostClassifier, fitted = None\<rparr>\<rparr>"
  by (auto simp: line64_def)

lemma line66_Inr: "line66 w s = Inr s' \<longleftrightarrow>
  (\<exists>est X y m. ada s = Some est \<and> X_train s = Some X \<and> y_train s = Some y
     \<and> fit_estimator w (params est) X y = Inr m
     \<and> s' = s\<lparr>ada := Some (est\<lparr>fitted := Some m\<rparr>),
            calls := calls s @ [Fit (params est) X y]\<rparr>)"
  by (auto simp: line66_def bindE_Inr_iff var_Inr_iff fit_Inr)

lemma line68_Inr: "line68 w s = Inr s' \<longleftrightarrow>
  (\<exists>est X p. ada s = Some est \<and> X_test s = Some X \<and> predict w est X = Inr p
     \<and> s' = s\<lparr>y_pred := Some p, calls := calls s @ [Predict (params est) X]\<rparr>)"
  by (auto simp: line68_def bindE_Inr_iff var_Inr_iff)

lemma line70_Inr: "line70 w s = Inr s' \<longleftrightarrow>
  (\<exists>y p r. y_test s = Some y \<and> y_pred s = Some p \<and> classification_report w y p = Inr r
     \<and> s' = s\<lparr>console := console s @ [r], calls := calls s @ [ClassificationReport y p]\<rparr>)"
  by (auto simp: line70_def bindE_Inr_iff var_Inr_iff)

lemmas line_Inr = line13_Inr line19_Inr line26_Inr line29_Inr line32_Inr line35_Inr line39_Inr
  line41_Inr line45_Inr line47_def line48_Inr line49_Inr line51_Inr line53_Inr line55_def
  line61_Inr line63_def line64_Inr line66_Inr line68_Inr line70_Inr line72_def
  start_run_Inr end_run_Inr

lemma run_Cons_Finished:
  "run ((l, f) # ps) s = Finished t \<longleftrightarrow> (\<exists>s'. f s = Inr s' \<and> run ps s' = Finished t)"
  by (auto split: sum.splits)

lemma run_Nil_Finished: "run [] s = Finished t \<longleftrightarrow> t = s"
  by auto

lemma run_append_Finished:
  "run (ps @ qs) s = Finished t \<longleftrightarrow> (\<exists>s'. run ps s = Finished s' \<and> run qs s' = Finished t)"
  by (induction ps s rule: run.induct) (auto split: sum.splits)

lemma preparation_Finished:
  "run (cell_load w @ cell_extract @ cell_tracking w) initial = Finished s \<longleftrightarrow>
   (\<exists>df tr te ytr yte.
      read_csv w dataset_url 1 0 = Inr df
    \<and> train_test_split (generator w) df (1 / 4) None = Inr (tr, te)
    \<and> fst (pop tr label_column) = Inr ytr
    \<and> fst (pop te label_column) = Inr yte
    \<and> tracking_backend w experiment_name = None
    \<and> s = \<lparr>credit_df = Some df, train_df = Some (snd (pop tr label_column)),
           test_df = Some (snd (pop te label_column)), y_train = Some ytr,
           X_train = Some (values_of (snd (pop tr label_column))),
           y_test = Some yte,
           X_test = Some (values_of (snd (pop te label_column))),
           clf = None, ada = None, y_pred = None,
           current_experiment = Some experiment_name,
           autolog_enabled = True, active_run_stack = [],
           runs_created = 0, console = [],
           calls = [ReadCsv dataset_url, TrainTestSplit df (1 / 4) None,
                Pop tr label_column, Pop te label_column,
                SetExperiment experiment_name, Autolog]\<rparr>)"
  unfolding cell_defs
  by (auto simp: run_Cons_Finished run_Nil_Finished line_Inr initial_def simp del: run.simps)

lemma gradient_boosting_Finished:
  "run (cell_gradient_boosting w) s = Finished s' \<longleftrightarrow>
   (\<exists>X y Xt yt m p r.
      X_train s = Some X \<and> y_train s = Some y \<and> X_test s = Some Xt \<and> y_test s = Some yt
    \<and> active_run_stack s = []
    \<and> fit_estimator w (GradientBoostingClassifier 100 (1 / 10)) X y = Inr m
    \<and> predict_estimator w m Xt = Inr p
    \<and> classification_report w yt p = Inr r
    \<and> s' = s\<lparr>clf := Some \<lparr>params = GradientBoostingClassifier 100 (1 / 10), fitted = Some m\<rparr>,
            y_pred := Some p,
            runs_created := Suc (runs_created s),
            console := console s @ [shape_line X, r],
            calls := calls s @
              [StartRun (runs_created s), Fit (GradientBoostingClassifier 100 (1 / 10)) X y,
               Predict (GradientBoostingClassifier 100 (1 / 10)) Xt,
               ClassificationReport yt p, EndRun (runs_created s)]\<rparr>)"
  unfolding cell_defs
  by (auto simp: run_Cons_Finished run_Nil_Finished line_Inr predict_def simp del: run.simps)

lemma adaboost_Finished:
  "run (cell_adaboost w) s = Finished s' \<longleftrightarrow>
   (\<exists>X y Xt yt m p r.
      X_train s = Some X \<and> y_train s = Some y \<and> X_test s = Some Xt \<and> y_test s = Some yt
    \<and> active_run_stack s = []
    \<and> fit_estimator w AdaBoostClassifier X y = Inr m
    \<and> predict_estimator w m Xt = Inr p
    \<and> classification_report w yt p = Inr r
    \<and> s' = s\<lparr>ada := Some \<lparr>params = AdaBoostClassifier, fitted = Some m\<rparr>,
            y_pred := Some p,
            runs_created := Suc (runs_created s),
            console := console s @ [shape_line X, r],
            calls := calls s @
              [StartRun (runs_created s), Fit AdaBoostClassifier X y,
               Predict AdaBoostClassifier Xt,
               ClassificationReport yt p, EndRun (runs_created s)]\<rparr>)"
  unfolding cell_defs
  by (auto simp: run_Cons_Finished run_Nil_Finished line_Inr predict_def simp del: run.simps)


lemma main_Finished:
  "main w = Finished s \<longleftrightarrow>
   (\<exists>df tr te ytr yte m1 p1 r1 m2 p2 r2.
      read_csv w dataset_url 1 0 = Inr df
    \<and> train_test_split (generator w) df (1 / 4) None = Inr (tr, te)
    \<and> fst (pop tr label_column) = Inr ytr
    \<and> fst (pop te label_column) = Inr yte
    \<and> tracking_backend w experiment_name = None
    \<and> fit_estimator w (GradientBoostingClassifier 100 (1 / 10))
          (values_of (snd (pop tr label_column))) ytr = Inr m1
    \<and> predict_estimator w m1 (values_of (snd (pop te label_column))) = Inr p1
    \<and> classification_report w yte p1 = Inr r1
    \<and> fit_estimator w AdaBoostClassifier (values_of (snd (pop tr label_column))) ytr = Inr m2
    \<and> predict_estimator w m2 (values_of (snd (pop te label_column))) = Inr p2
    \<and> classification_report w yte p2 = Inr r2
    \<and> s = \<lparr>credit_df = Some df, train_df = Some (snd (pop tr label_column)),
           test_df = Some (snd (pop te label_column)), y_train = Some ytr,
           X_train = Some (values_of (snd (pop tr label_column))),
           y_test = Some yte,
           X_test = Some (values_of (snd (pop te label_column))),
           clf = Some \<lparr>params = GradientBoostingClassifier 100 (1 / 10), fitted = Some m1\<rparr>,
           ada = Some \<lparr>params = AdaBoostClassifier, fitted = Some m2\<rparr>,
           y_pred = Some p2,
           current_experiment = Some experiment_name,
           autolog_enabled = True, active_run_stack = [],
           runs_created = 2,
           console = [shape_line (values_of (snd (pop tr label_column))), r1,
                      shape_line (values_of (snd (pop tr label_column))), r2],
           calls = [ReadCsv dataset_url, TrainTestSplit df (1 / 4) None,
                Pop tr label_column, Pop te label_column,
                SetExperiment experiment_name, Autolog,
                StartRun 0,
                Fit (GradientBoostingClassifier 100 (1 / 10))
                  (values_of (snd (pop tr label_column))) ytr,
                Predict (GradientBoostingClassifier 100 (1 / 10))
                  (values_of (snd (pop te label_column))),
                ClassificationReport yte p1, EndRun 0,
                StartRun 1,
                Fit AdaBoostClassifier (values_of (snd (pop tr label_column))) ytr,
                Predict AdaBoostClassifier (values_of (snd (pop te label_column))),
                ClassificationReport yte p2, EndRun 1]\<rparr>)"
proof -
  have "main w = Finished s \<longleftrightarrow>
    (\<exists>s1 s2. run (cell_load w @ cell_extract @ cell_tracking w) initial = Finished s1
       \<and> run (cell_gradient_boosting w) s1 = Finished s2
       \<and> run (cell_adaboost w) s2 = Finished s)"
    by (auto simp: main_def script_def run_append_Finished)
  then show ?thesis
    by (auto simp: preparation_Finished gradient_boosting_Finished adaboost_Finished
        numeral_2_eq_2)
qed

lemmas line_defs = line13_def line19_def line26_def line29_def line32_def line35_def line39_def
  line41_def line45_def line47_def line48_def line49_def line51_def line53_def line55_def
  line61_def line63_def line64_def line66_def line68_def line70_def line72_def

lemma history_main:
  assumes "main w = Finished s"
  shows "map (\<lambda>(l, s'). (l, active_run_stack s')) (history (script w) initial) =
    [(13, []), (19, []), (26, []), (29, []), (32, []), (35, []), (39, []), (41, []),
     (45, []), (47, [0]), (48, [0]), (49, [0]), (51, [0]), (53, [0]), (55, []),
     (61, []), (63, [1]), (64, [1]), (66, [1]), (68, [1]), (70, [1]), (72, [])]"
proof -
  from assms obtain df tr te ytr yte m1 p1 r1 m2 p2 r2 where
    "read_csv w dataset_url 1 0 = Inr df"
    "train_test_split (generator w) df (1 / 4) None = Inr (tr, te)"
    "fst (pop tr label_column) = Inr ytr"
    "fst (pop te label_column) = Inr yte"
    "tracking_backend w experiment_name = None"
    "fit_estimator w (GradientBoostingClassifier 100 (1 / 10))
          (values_of (snd (pop tr label_column))) ytr = Inr m1"
    "predict_estimator w m1 (values_of (snd (pop te label_column))) = Inr p1"
    "classification_report w yte p1 = Inr r1"
    "fit_estimator w AdaBoostClassifier (values_of (snd (pop tr label_column))) ytr = Inr m2"
    "predict_estimator w m2 (values_of (snd (pop te label_column))) = Inr p2"
    "classification_report w yte p2 = Inr r2"
    unfolding main_Finished by blast
  then show ?thesis
    unfolding script_def cell_defs
    by (simp add: line_defs bindE_def var_def initial_def start_run_def end_run_def
        fit_def predict_def)
qed


lemma bindE_Inl_iff: "bindE m f = Inl e \<longleftrightarrow> m = Inl e \<or> (\<exists>x. m = Inr x \<and> f x = Inl e)"
  by (cases m) (simp_all add: bindE_def)

lemma var_Inl_iff: "var v = Inl e \<longleftrightarrow> v = None \<and> e = NameError"
  by (cases v) (auto simp: var_def)

lemma run_Cons_Aborted:
  "run ((l, f) # ps) s = Aborted l' e t \<longleftrightarrow>
     (f s = Inl e \<and> l' = l \<and> t = s) \<or> (\<exists>s'. f s = Inr s' \<and> run ps s' = Aborted l' e t)"
  by (auto split: sum.splits)

lemma run_Nil_Aborted: "run [] s \<noteq> Aborted l e t"
  by simp

lemma run_append_Aborted:
  "run (ps @ qs) s = Aborted l e t \<longleftrightarrow>
     run ps s = Aborted l e t \<or> (\<exists>s'. run ps s = Finished s' \<and> run qs s' = Aborted l e t)"
  by (induction ps s rule: run.induct) (auto split: sum.splits)

lemma preparation_Aborted:
  assumes "run (cell_load w @ cell_extract @ cell_tracking w) initial = Aborted l e s"
  shows "l < 45 \<and> runs_created s = 0 \<and> active_run_stack s = []
    \<and> (\<forall>r. StartRun r \<notin> set (calls s))"
  using assms unfolding cell_defs
  by (auto simp: run_Cons_Aborted run_Nil_Aborted line_Inr initial_def simp del: run.simps)


lemma run_Aborted_line: "run ps s = Aborted l e t \<Longrightarrow> l \<in> fst ` set ps"
  by (induction ps s rule: run.induct) (auto split: sum.splits)

lemma line48_Inl: "line48 s \<noteq> Inl e"
  by (simp add: line48_def)

lemma line64_Inl: "line64 s \<noteq> Inl e"
  by (simp add: line64_def)

lemma end_run_Inl: "end_run s \<noteq> Inl e"
  by (simp add: end_run_def split: list.splits)

lemma start_run_Inl: "start_run s = Inl e \<longleftrightarrow> active_run_stack s \<noteq> [] \<and> e = MlflowException"
  by (auto simp: start_run_def)

lemma gradient_boosting_Aborted:
  assumes "run (cell_gradient_boosting w) s = Aborted l e s'" and "active_run_stack s = []"
  shows "(l = 45 \<and> s' = s)
       \<or> ((l = 49 \<or> l = 51 \<or> l = 53) \<and> active_run_stack s' = [runs_created s])"
  using assms unfolding cell_defs
  by (auto simp: run_Cons_Aborted run_Nil_Aborted line_Inr line48_Inl end_run_Inl start_run_Inl
      simp del: run.simps)

lemma adaboost_Aborted:
  assumes "run (cell_adaboost w) s = Aborted l e s'" and "active_run_stack s = []"
  shows "(l = 61 \<and> s' = s)
       \<or> ((l = 66 \<or> l = 68 \<or> l = 70) \<and> active_run_stack s' = [runs_created s])"
  using assms unfolding cell_defs
  by (auto simp: run_Cons_Aborted run_Nil_Aborted line_Inr line64_Inl end_run_Inl start_run_Inl
      simp del: run.simps)

lemma script_split:
  "script w = (cell_load w @ cell_extract @ cell_tracking w)
     @ cell_gradient_boosting w @ cell_adaboost w"
  by (simp add: script_def)

text \<open>
  Claim C10. The first run starts at line 47, after loading, splitting and label
  extraction. A script that stops before that line has started no run; a script that
  stops with a run still active stopped at a fit, a predict or a report.
\<close>

theorem preparation_failure_starts_no_run:
  assumes "main w = Aborted l e s"
  shows "(l < 47 \<longrightarrow>
            runs_created s = 0 \<and> active_run_stack s = [] \<and> (\<forall>r. StartRun r \<notin> set (calls s)))
       \<and> (active_run_stack s \<noteq> [] \<longrightarrow>
            l = 49 \<or> l = 51 \<or> l = 53 \<or> l = 66 \<or> l = 68 \<or> l = 70)"
proof -
  from assms have "run ((cell_load w @ cell_extract @ cell_tracking w)
     @ cell_gradient_boosting w @ cell_adaboost w) initial = Aborted l e s"
    by (simp only: main_def script_split)
  then consider
    (prep) "run (cell_load w @ cell_extract @ cell_tracking w) initial = Aborted l e s"
  | (gb) s1 where "run (cell_load w @ cell_extract @ cell_tracking w) initial = Finished s1"
      "run (cell_gradient_boosting w) s1 = Aborted l e s"
  | (ada) s1 s2 where "run (cell_load w @ cell_extract @ cell_tracking w) initial = Finished s1"
      "run (cell_gradient_boosting w) s1 = Finished s2"
      "run (cell_adaboost w) s2 = Aborted l e s"
    unfolding run_append_Aborted by blast
  then show ?thesis
  proof cases
    case prep
    from preparation_Aborted [OF prep] show ?thesis by simp
  next
    case gb
    from gb(1) have s1: "active_run_stack s1 = []" "runs_created s1 = 0"
      "\<forall>r. StartRun r \<notin> set (calls s1)"
      unfolding preparation_Finished by auto
    from gradient_boosting_Aborted [OF gb(2) s1(1)] s1 show ?thesis by auto
  next
    case ada
    from ada(1) have s1: "active_run_stack s1 = []"
      unfolding preparation_Finished by auto
    from ada(2) s1 have s2: "active_run_stack s2 = []"
      unfolding gradient_boosting_Finished by auto
    from adaboost_Aborted [OF ada(3) s2] s2 show ?thesis by auto
  qed
qed


lemma gradient_boosting_Aborted_fit:
  assumes "run (cell_gradient_boosting w) s = Aborted 49 e s'" and "active_run_stack s = []"
    and "X_train s = Some X" and "y_train s = Some y"
  shows "fit_estimator w (GradientBoostingClassifier 100 (1 / 10)) X y = Inl e
    \<and> s' = s\<lparr>console := console s @ [shape_line X],
             active_run_stack := [runs_created s],
             runs_created := Suc (runs_created s),
             calls := calls s @ [StartRun (runs_created s)],
             clf := Some \<lparr>params = GradientBoostingClassifier 100 (1 / 10), fitted = None\<rparr>\<rparr>"
  using assms unfolding cell_defs
  by (auto simp: run_Cons_Aborted run_Nil_Aborted line_Inr line48_Inl start_run_Inl
      line49_def fit_def bindE_Inl_iff var_Inl_iff var_Inr_iff simp del: run.simps)

lemma gradient_boosting_Aborted_predict:
  assumes "run (cell_gradient_boosting w) s = Aborted 51 e s'" and "active_run_stack s = []"
    and "X_train s = Some X" and "y_train s = Some y" and "X_test s = Some Xt"
  shows "\<exists>m. fit_estimator w (GradientBoostingClassifier 100 (1 / 10)) X y = Inr m
    \<and> predict_estimator w m Xt = Inl e
    \<and> s' = s\<lparr>console := console s @ [shape_line X],
             active_run_stack := [runs_created s],
             runs_created := Suc (runs_created s),
             calls := calls s @ [StartRun (runs_created s),
               Fit (GradientBoostingClassifier 100 (1 / 10)) X y],
             clf := Some \<lparr>params = GradientBoostingClassifier 100 (1 / 10), fitted = Some m\<rparr>\<rparr>"
  using assms unfolding cell_defs
  by (auto simp: run_Cons_Aborted run_Nil_Aborted line_Inr line48_Inl start_run_Inl
      line51_def predict_def bindE_Inl_iff var_Inl_iff var_Inr_iff simp del: run.simps)

lemma first_cycle_Aborted:
  assumes "main w = Aborted l e s" and "l = 49 \<or> l = 51"
  shows "\<exists>df tr te ytr yte.
      read_csv w dataset_url 1 0 = Inr df
    \<and> train_test_split (generator w) df (1 / 4) None = Inr (tr, te)
    \<and> fst (pop tr label_column) = Inr ytr
    \<and> fst (pop te label_column) = Inr yte
    \<and> (l = 49 \<longrightarrow>
         fit_estimator w (GradientBoostingClassifier 100 (1 / 10))
           (values_of (snd (pop tr label_column))) ytr = Inl e)
    \<and> (l = 51 \<longrightarrow>
         (\<exists>m. fit_estimator w (GradientBoostingClassifier 100 (1 / 10))
                (values_of (snd (pop tr label_column))) ytr = Inr m
            \<and> predict_estimator w m (values_of (snd (pop te label_column))) = Inl e))
    \<and> active_run_stack s = [0] \<and> runs_created s = 1
    \<and> ada s = None
    \<and> console s = [shape_line (values_of (snd (pop tr label_column)))]
    \<and> calls s =
         [ReadCsv dataset_url, TrainTestSplit df (1 / 4) None,
          Pop tr label_column, Pop te label_column,
          SetExperiment experiment_name, Autolog, StartRun 0]
         @ (if l = 49 then []
            else [Fit (GradientBoostingClassifier 100 (1 / 10))
                    (values_of (snd (pop tr label_column))) ytr])"
proof -
  from assms(1) have "run ((cell_load w @ cell_extract @ cell_tracking w)
     @ cell_gradient_boosting w @ cell_adaboost w) initial = Aborted l e s"
    by (simp only: main_def script_split)
  then consider
    (prep) "run (cell_load w @ cell_extract @ cell_tracking w) initial = Aborted l e s"
  | (gb) s1 where "run (cell_load w @ cell_extract @ cell_tracking w) initial = Finished s1"
      "run (cell_gradient_boosting w) s1 = Aborted l e s"
  | (ada) s1 s2 where "run (cell_load w @ cell_extract @ cell_tracking w) initial = Finished s1"
      "run (cell_gradient_boosting w) s1 = Finished s2"
      "run (cell_adaboost w) s2 = Aborted l e s"
    unfolding run_append_Aborted by blast
  then show ?thesis
  proof cases
    case prep
    from preparation_Aborted [OF prep] assms(2) show ?thesis by auto
  next
    case ada
    from run_Aborted_line [OF ada(3)] assms(2) show ?thesis
      by (auto simp: cell_defs)
  next
    case gb
    from gb(1) obtain df tr te ytr yte where
      w: "read_csv w dataset_url 1 0 = Inr df"
        "train_test_split (generator w) df (1 / 4) None = Inr (tr, te)"
        "fst (pop tr label_column) = Inr ytr"
        "fst (pop te label_column) = Inr yte"
      and s1: "s1 = \<lparr>credit_df = Some df, train_df = Some (snd (pop tr label_column)),
           test_df = Some (snd (pop te label_column)), y_train = Some ytr,
           X_train = Some (values_of (snd (pop tr label_column))),
           y_test = Some yte,
           X_test = Some (values_of (snd (pop te label_column))),
           clf = None, ada = None, y_pred = None,
           current_experiment = Some experiment_name,
           autolog_enabled = True, active_run_stack = [],
           runs_created = 0, console = [],
           calls = [ReadCsv dataset_url, TrainTestSplit df (1 / 4) None,
                Pop tr label_column, Pop te label_column,
                SetExperiment experiment_name, Autolog]\<rparr>"
      unfolding preparation_Finished by blast
    from assms(2) show ?thesis
    proof
      assume l: "l = 49"
      from gradient_boosting_Aborted_fit [OF gb(2) [unfolded l],
          of "values_of (snd (pop tr label_column))" ytr]
      show ?thesis using w l by (auto simp: s1)
    next
      assume l: "l = 51"
      from gradient_boosting_Aborted_predict [OF gb(2) [unfolded l],
          of "values_of (snd (pop tr label_column))" ytr "values_of (snd (pop te label_column))"]
      show ?thesis using w l by (auto simp: s1)
    qed
  qed
qed

lemma sample_split:
  "train_test_split sample_rng sample_frame (1 / 4) None =
     Inr (sample_frame\<lparr>rows := [rows sample_frame ! 2, rows sample_frame ! 1, rows sample_frame ! 0]\<rparr>,
          sample_frame\<lparr>rows := [rows sample_frame ! 3]\<rparr>)"
  by (simp add: train_test_split_def shuffle_split_def n_test_quarter draw_permutation_def
      sample_rng_def sample_frame_def iloc_def bindE_def Let_def upt_rec_numeral)

lemma sample_pop_train:
  "\<exists>y. fst (pop (sample_frame\<lparr>rows := [rows sample_frame ! 2, rows sample_frame ! 1, rows sample_frame ! 0]\<rparr>) label_column) = Inr y"
  by (simp add: pop_def getitem_def delitem_def cells_under_def cells_beside_def sample_frame_def label_column_def)

lemma sample_pop_test:
  "\<exists>y. fst (pop (sample_frame\<lparr>rows := [rows sample_frame ! 3]\<rparr>) label_column) = Inr y"
  by (simp add: pop_def getitem_def delitem_def cells_under_def cells_beside_def sample_frame_def label_column_def)

lemma sample_main: "\<exists>s. main sample_world = Finished s"
proof -
  have w: "read_csv sample_world dataset_url 1 0 = Inr sample_frame"
    "generator sample_world = sample_rng"
    "tracking_backend sample_world experiment_name = None"
    "\<And>c X y. fit_estimator sample_world c X y = Inr ()"
    "\<And>m X. predict_estimator sample_world m X = Inr (map (\<lambda>r. IntCell 0) (data X))"
    "\<And>y p. classification_report sample_world y p = Inr ''report''"
    by (simp_all add: sample_world_def)
  from sample_pop_train sample_pop_test show ?thesis
    unfolding main_Finished w using sample_split by blast
qed


text \<open>
  Claim C4. The script splits once: a run that finishes has called the splitter exactly
  once, and both training cycles fit on the train partition of that one split and
  predict and report on its test partition.
\<close>

theorem split_once_shared_partitions:
  assumes "main w = Finished s"
  shows "\<exists>df tr te ytr yte p1 p2.
      read_csv w dataset_url 1 0 = Inr df
    \<and> train_test_split (generator w) df (1 / 4) None = Inr (tr, te)
    \<and> fst (pop tr label_column) = Inr ytr
    \<and> fst (pop te label_column) = Inr yte
    \<and> count_list (calls s) (TrainTestSplit df (1 / 4) None) = 1
    \<and> calls s =
         [ReadCsv dataset_url, TrainTestSplit df (1 / 4) None,
          Pop tr label_column, Pop te label_column,
          SetExperiment experiment_name, Autolog,
          StartRun 0,
          Fit (GradientBoostingClassifier 100 (1 / 10))
            (values_of (snd (pop tr label_column))) ytr,
          Predict (GradientBoostingClassifier 100 (1 / 10))
            (values_of (snd (pop te label_column))),
          ClassificationReport yte p1, EndRun 0,
          StartRun 1,
          Fit AdaBoostClassifier (values_of (snd (pop tr label_column))) ytr,
          Predict AdaBoostClassifier (values_of (snd (pop te label_column))),
          ClassificationReport yte p2, EndRun 1]"
proof -
  from assms obtain df tr te ytr yte p1 p2 where
    w: "read_csv w dataset_url 1 0 = Inr df"
    "train_test_split (generator w) df (1 / 4) None = Inr (tr, te)"
    "fst (pop tr label_column) = Inr ytr"
    "fst (pop te label_column) = Inr yte"
    and c: "calls s =
         [ReadCsv dataset_url, TrainTestSplit df (1 / 4) None,
          Pop tr label_column, Pop te label_column,
          SetExperiment experiment_name, Autolog,
          StartRun 0,
          Fit (GradientBoostingClassifier 100 (1 / 10))
            (values_of (snd (pop tr label_column))) ytr,
          Predict (GradientBoostingClassifier 100 (1 / 10))
            (values_of (snd (pop te label_column))),
          ClassificationReport yte p1, EndRun 0,
          StartRun 1,
          Fit AdaBoostClassifier (values_of (snd (pop tr label_column))) ytr,
          Predict AdaBoostClassifier (values_of (snd (pop te label_column))),
          ClassificationReport yte p2, EndRun 1]"
    unfolding main_Finished by force
  from c have "count_list (calls s) (TrainTestSplit df (1 / 4) None) = 1"
    by simp
  with w c show ?thesis by blast
qed

theorem split_once_shared_partitions_witness:
  "\<exists>s. main sample_world = Finished s
     \<and> count_list (calls s) (TrainTestSplit sample_frame (1 / 4) None) = 1
     \<and> length (calls s) = 16"
proof -
  from sample_main obtain s where s: "main sample_world = Finished s" ..
  from split_once_shared_partitions [OF s] obtain df tr te ytr yte p1 p2 where
    r: "read_csv sample_world dataset_url 1 0 = Inr df"
    and n: "count_list (calls s) (TrainTestSplit df (1 / 4) None) = 1"
    and c: "calls s =
         [ReadCsv dataset_url, TrainTestSplit df (1 / 4) None,
          Pop tr label_column, Pop te label_column,
          SetExperiment experiment_name, Autolog,
          StartRun 0,
          Fit (GradientBoostingClassifier 100 (1 / 10))
            (values_of (snd (pop tr label_column))) ytr,
          Predict (GradientBoostingClassifier 100 (1 / 10))
            (values_of (snd (pop te label_column))),
          ClassificationReport yte p1, EndRun 0,
          StartRun 1,
          Fit AdaBoostClassifier (values_of (snd (pop tr label_column))) ytr,
          Predict AdaBoostClassifier (values_of (snd (pop te label_column))),
          ClassificationReport yte p2, EndRun 1]"
    by blast
  from r have df: "df = sample_frame" by (simp add: sample_world_def)
  from c have "length (calls s) = 16" by simp
  with s n df show ?thesis by blast
qed

lemma sample_world_fields:
  "read_csv sample_world dataset_url 1 0 = Inr sample_frame"
  "generator sample_world = sample_rng"
  "tracking_backend sample_world experiment_name = None"
  "fit_estimator sample_world c X y = Inr ()"
  "predict_estimator sample_world m X = Inr (map (\<lambda>r. IntCell 0) (data X))"
  "classification_report sample_world y p = Inr ''report''"
  by (simp_all add: sample_world_def)

lemma sample_fit_fails:
  "\<exists>s. main (sample_world\<lparr>fit_estimator := (\<lambda>c X y. Inl (LibraryError ''fit''))\<rparr>)
        = Aborted 49 (LibraryError ''fit'') s \<and> active_run_stack s = [0]"
proof -
  let ?w = "sample_world\<lparr>fit_estimator := (\<lambda>c X y. Inl (LibraryError ''fit''))\<rparr>"
  obtain ytr where ytr: "fst (pop (sample_frame\<lparr>rows := [rows sample_frame ! 2, rows sample_frame ! 1, rows sample_frame ! 0]\<rparr>) label_column) = Inr ytr"
    using sample_pop_train by blast
  obtain yte where yte: "fst (pop (sample_frame\<lparr>rows := [rows sample_frame ! 3]\<rparr>) label_column) = Inr yte"
    using sample_pop_test by blast
  have "\<exists>s1. run (cell_load ?w @ cell_extract @ cell_tracking ?w) initial = Finished s1
      \<and> active_run_stack s1 = [] \<and> runs_created s1 = 0
      \<and> X_train s1 \<noteq> None \<and> y_train s1 \<noteq> None"
    unfolding preparation_Finished
    using sample_split ytr yte by (simp add: sample_world_def)
  then obtain s1 X y where s1: "run (cell_load ?w @ cell_extract @ cell_tracking ?w) initial = Finished s1"
    "active_run_stack s1 = []" "X_train s1 = Some X" "y_train s1 = Some y"
    "runs_created s1 = 0"
    by auto
  have "\<exists>s. run (cell_gradient_boosting ?w) s1 = Aborted 49 (LibraryError ''fit'') s"
    unfolding cell_defs
    by (simp add: run_Cons_Aborted run_Nil_Aborted line_Inr s1 line49_def fit_def bindE_def
        var_def sample_world_def del: run.simps)
  then obtain s where s: "run (cell_gradient_boosting ?w) s1 = Aborted 49 (LibraryError ''fit'') s"
    ..
  from gradient_boosting_Aborted [OF s s1(2)] s1(5) have "active_run_stack s = [0]"
    by simp
  with s show ?thesis
    unfolding main_def script_split run_append_Aborted using s1(1) by blast
qed

lemma sample_read_fails:
  "main (sample_world\<lparr>read_csv := (\<lambda>url header index_col. Inl (LibraryError ''network''))\<rparr>)
     = Aborted 13 (LibraryError ''network'') initial"
  by (simp add: main_def script_def cell_defs line13_def bindE_def)


theorem preparation_failure_starts_no_run_witness:
  "main (sample_world\<lparr>read_csv := (\<lambda>url header index_col. Inl (LibraryError ''network''))\<rparr>)
     = Aborted 13 (LibraryError ''network'') initial
   \<and> runs_created (initial :: unit state) = 0
   \<and> active_run_stack (initial :: unit state) = []
   \<and> (\<exists>s. main (sample_world\<lparr>fit_estimator := (\<lambda>c X y. Inl (LibraryError ''fit''))\<rparr>)
        = Aborted 49 (LibraryError ''fit'') s \<and> active_run_stack s \<noteq> [])"
proof -
  from sample_fit_fails obtain s where
    s: "main (sample_world\<lparr>fit_estimator := (\<lambda>c X y. Inl (LibraryError ''fit''))\<rparr>)
        = Aborted 49 (LibraryError ''fit'') s" and a: "active_run_stack s \<noteq> []"
    by auto
  from preparation_failure_starts_no_run [OF sample_read_fails]
    preparation_failure_starts_no_run [OF s] sample_read_fails s a
  show ?thesis by auto
qed

text \<open>
  Claim C5. On a run that finishes, at most one tracked run is active after every
  statement: one after each start (lines 47 and 63), none after each end (lines 55 and
  72), and the second start comes after the first end.
\<close>

theorem one_run_active_at_a_time:
  assumes "main w = Finished s"
  shows "map (\<lambda>(l, s'). (l, active_run_stack s')) (history (script w) initial) =
      [(13, []), (19, []), (26, []), (29, []), (32, []), (35, []), (39, []), (41, []),
       (45, []), (47, [0]), (48, [0]), (49, [0]), (51, [0]), (53, [0]), (55, []),
       (61, []), (63, [1]), (64, [1]), (66, [1]), (68, [1]), (70, [1]), (72, [])]
    \<and> list_all (\<lambda>(l, s').
          length (active_run_stack s') \<le> 1
        \<and> (l = 47 \<or> l = 63 \<longrightarrow> length (active_run_stack s') = 1)
        \<and> (l = 55 \<or> l = 72 \<longrightarrow> active_run_stack s' = []))
        (history (script w) initial)
    \<and> active_run_stack s = []"
proof -
  let ?P = "\<lambda>(l :: nat, st :: nat list).
      length st \<le> 1 \<and> (l = 47 \<or> l = 63 \<longrightarrow> length st = 1) \<and> (l = 55 \<or> l = 72 \<longrightarrow> st = [])"
  note h = history_main [OF assms]
  have "list_all ?P (map (\<lambda>(l, s'). (l, active_run_stack s')) (history (script w) initial))"
    unfolding h by simp
  then have "list_all (\<lambda>(l, s').
          length (active_run_stack s') \<le> 1
        \<and> (l = 47 \<or> l = 63 \<longrightarrow> length (active_run_stack s') = 1)
        \<and> (l = 55 \<or> l = 72 \<longrightarrow> active_run_stack s' = []))
        (history (script w) initial)"
    by (simp add: list_all_iff case_prod_unfold)
  note la = this
  from assms have a: "active_run_stack s = []"
    unfolding main_Finished by auto
  show ?thesis
    by (intro conjI) (rule h, rule la, rule a)
qed

theorem one_run_active_at_a_time_witness:
  "\<exists>s. main sample_world = Finished s
     \<and> map (\<lambda>(l, s'). (l, active_run_stack s')) (history (script sample_world) initial) =
      [(13, []), (19, []), (26, []), (29, []), (32, []), (35, []), (39, []), (41, []),
       (45, []), (47, [0]), (48, [0]), (49, [0]), (51, [0]), (53, [0]), (55, []),
       (61, []), (63, [1]), (64, [1]), (66, [1]), (68, [1]), (70, [1]), (72, [])]
     \<and> active_run_stack s = []"
proof -
  from sample_main obtain s where s: "main sample_world = Finished s" ..
  note t = one_run_active_at_a_time [OF s]
  show ?thesis
    by (rule exI [of _ s])
      (intro conjI, rule s, rule t [THEN conjunct1], rule t [THEN conjunct2, THEN conjunct2])
qed

lemma shape_line_popped:
  "shape_line (values_of (snd (pop tr label_column))) =
      ''Training with data of shape ''
        @ str_shape (length (rows tr), length (columns (snd (pop tr label_column))))"
  by (simp add: shape_line_def values_of_def pop_def delitem_def split: sum.splits)

text \<open>
  Claim C8. A run that finishes has printed four lines, two per model: the shape of the
  training data, then the report on that model's predictions for the test partition.
\<close>

theorem console_two_blocks:
  assumes "main w = Finished s"
  shows "\<exists>df tr te ytr yte m1 p1 r1 m2 p2 r2.
      read_csv w dataset_url 1 0 = Inr df
    \<and> train_test_split (generator w) df (1 / 4) None = Inr (tr, te)
    \<and> fst (pop tr label_column) = Inr ytr
    \<and> fst (pop te label_column) = Inr yte
    \<and> fit_estimator w (GradientBoostingClassifier 100 (1 / 10))
          (values_of (snd (pop tr label_column))) ytr = Inr m1
    \<and> predict_estimator w m1 (values_of (snd (pop te label_column))) = Inr p1
    \<and> classification_report w yte p1 = Inr r1
    \<and> fit_estimator w AdaBoostClassifier (values_of (snd (pop tr label_column))) ytr = Inr m2
    \<and> predict_estimator w m2 (values_of (snd (pop te label_column))) = Inr p2
    \<and> classification_report w yte p2 = Inr r2
    \<and> console s =
         [''Training with data of shape ''
            @ str_shape (length (rows tr), length (columns (snd (pop tr label_column)))), r1,
          ''Training with data of shape ''
            @ str_shape (length (rows tr), length (columns (snd (pop tr label_column)))), r2]"
proof -
  from assms obtain df tr te ytr yte m1 p1 r1 m2 p2 r2 where
    w: "read_csv w dataset_url 1 0 = Inr df"
    "train_test_split (generator w) df (1 / 4) None = Inr (tr, te)"
    "fst (pop tr label_column) = Inr ytr"
    "fst (pop te label_column) = Inr yte"
    "fit_estimator w (GradientBoostingClassifier 100 (1 / 10))
          (values_of (snd (pop tr label_column))) ytr = Inr m1"
    "predict_estimator w m1 (values_of (snd (pop te label_column))) = Inr p1"
    "classification_report w yte p1 = Inr r1"
    "fit_estimator w AdaBoostClassifier (values_of (snd (pop tr label_column))) ytr = Inr m2"
    "predict_estimator w m2 (values_of (snd (pop te label_column))) = Inr p2"
    "classification_report w yte p2 = Inr r2"
    and c: "console s = [shape_line (values_of (snd (pop tr label_column))), r1,
                      shape_line (values_of (snd (pop tr label_column))), r2]"
    unfolding main_Finished by force
  from c have "console s =
         [''Training with data of shape ''
            @ str_shape (length (rows tr), length (columns (snd (pop tr label_column)))), r1,
          ''Training with data of shape ''
            @ str_shape (length (rows tr), length (columns (snd (pop tr label_column)))), r2]"
    by (simp only: shape_line_popped)
  with w show ?thesis by blast
qed


lemma str_shape_3_2: "str_shape (3, 2) = ''(3, 2)''"
proof -
  have "str_nat 3 = ''3''" by (subst str_nat.simps) simp
  moreover have "str_nat 2 = ''2''" by (subst str_nat.simps) simp
  ultimately show ?thesis by (simp add: str_shape_def)
qed

theorem console_two_blocks_witness:
  "\<exists>s. main sample_world = Finished s
     \<and> console s = [''Training with data of shape (3, 2)'', ''report'',
                    ''Training with data of shape (3, 2)'', ''report'']"
proof -
  from sample_main obtain s where s: "main sample_world = Finished s" ..
  from console_two_blocks [OF s] obtain df tr te ytr yte m1 p1 r1 m2 p2 r2 where
    d: "read_csv sample_world dataset_url 1 0 = Inr df"
    and t: "train_test_split (generator sample_world) df (1 / 4) None = Inr (tr, te)"
    and r: "classification_report sample_world yte p1 = Inr r1"
      "classification_report sample_world yte p2 = Inr r2"
    and c: "console s =
         [''Training with data of shape ''
            @ str_shape (length (rows tr), length (columns (snd (pop tr label_column)))), r1,
          ''Training with data of shape ''
            @ str_shape (length (rows tr), length (columns (snd (pop tr label_column)))), r2]"
    by blast
  from d have df: "df = sample_frame" by (simp add: sample_world_def)
  from t have tr: "tr = sample_frame\<lparr>rows := [rows sample_frame ! 2, rows sample_frame ! 1, rows sample_frame ! 0]\<rparr>"
    unfolding df sample_world_fields sample_split by simp
  from r have rr: "r1 = ''report''" "r2 = ''report''"
    by (simp_all add: sample_world_fields)
  have n: "length (rows tr) = 3" by (simp add: tr)
  have m: "length (columns (snd (pop tr label_column))) = 2"
    by (simp add: tr pop_def getitem_def delitem_def cells_under_def cells_beside_def sample_frame_def label_column_def drop_at_def)
  from c have "console s = [''Training with data of shape (3, 2)'', ''report'',
                    ''Training with data of shape (3, 2)'', ''report'']"
    unfolding n m rr str_shape_3_2 by simp
  with s show ?thesis by blast
qed

lemma main_partitions:
  assumes "main w = Finished s"
  shows "\<exists>df tr te. read_csv w dataset_url 1 0 = Inr df
    \<and> train_test_split (generator w) df (1 / 4) None = Inr (tr, te)
    \<and> credit_df s = Some df
    \<and> train_df s = Some (snd (pop tr label_column))
    \<and> test_df s = Some (snd (pop te label_column))
    \<and> calls s ! 1 = TrainTestSplit df (1 / 4) None"
  using assms unfolding main_Finished by force

lemma sample_split_identity:
  "train_test_split (sample_rng\<lparr>fresh_permutation := (\<lambda>n. [0..<n])\<rparr>) sample_frame (1 / 4) None =
     Inr (sample_frame\<lparr>rows := [rows sample_frame ! 1, rows sample_frame ! 2, rows sample_frame ! 3]\<rparr>,
          sample_frame\<lparr>rows := [rows sample_frame ! 0]\<rparr>)"
  by (simp add: train_test_split_def shuffle_split_def n_test_quarter draw_permutation_def
      sample_rng_def sample_frame_def iloc_def bindE_def Let_def upt_rec_numeral)

lemma sample_main_identity:
  "\<exists>s. main (sample_world\<lparr>generator := sample_rng\<lparr>fresh_permutation := (\<lambda>n. [0..<n])\<rparr>\<rparr>)
       = Finished s"
proof -
  let ?w = "sample_world\<lparr>generator := sample_rng\<lparr>fresh_permutation := (\<lambda>n. [0..<n])\<rparr>\<rparr>"
  have w: "read_csv ?w dataset_url 1 0 = Inr sample_frame"
    "generator ?w = sample_rng\<lparr>fresh_permutation := (\<lambda>n. [0..<n])\<rparr>"
    "tracking_backend ?w experiment_name = None"
    "\<And>c X y. fit_estimator ?w c X y = Inr ()"
    "\<And>m X. predict_estimator ?w m X = Inr (map (\<lambda>r. IntCell 0) (data X))"
    "\<And>y p. classification_report ?w y p = Inr ''report''"
    by (simp_all add: sample_world_def)
  have "\<exists>y. fst (pop (sample_frame\<lparr>rows := [rows sample_frame ! 1, rows sample_frame ! 2, rows sample_frame ! 3]\<rparr>) label_column) = Inr y"
    by (simp add: pop_def getitem_def delitem_def cells_under_def cells_beside_def sample_frame_def label_column_def)
  moreover have "\<exists>y. fst (pop (sample_frame\<lparr>rows := [rows sample_frame ! 0]\<rparr>) label_column) = Inr y"
    by (simp add: pop_def getitem_def delitem_def cells_under_def cells_beside_def sample_frame_def label_column_def)
  ultimately show ?thesis
    unfolding main_Finished w using sample_split_identity by blast
qed

text \<open>
  Claim C7. The script calls the splitter with test fraction 1/4 and no seed, so the
  partitions follow the generator's fresh draw: two executions on the same dataset, in
  worlds that differ only in that draw, end with different partitions.
\<close>

theorem split_depends_on_fresh_draw:
  "(main w = Finished s \<longrightarrow>
      (\<exists>df. credit_df s = Some df \<and> calls s ! 1 = TrainTestSplit df (1 / 4) None))
   \<and> (\<exists>s1 s2 df.
        main sample_world = Finished s1
      \<and> main (sample_world\<lparr>generator := sample_rng\<lparr>fresh_permutation := (\<lambda>n. [0..<n])\<rparr>\<rparr>)
          = Finished s2
      \<and> credit_df s1 = Some df \<and> credit_df s2 = Some df
      \<and> permutes_rows (fresh_permutation sample_rng (length (rows df))) (length (rows df))
      \<and> permutes_rows [0..<length (rows df)] (length (rows df))
      \<and> train_df s1 \<noteq> train_df s2 \<and> test_df s1 \<noteq> test_df s2)"
proof (intro conjI impI)
  assume "main w = Finished s"
  from main_partitions [OF this]
  show "\<exists>df. credit_df s = Some df \<and> calls s ! 1 = TrainTestSplit df (1 / 4) None"
    by blast
next
  let ?w2 = "sample_world\<lparr>generator := sample_rng\<lparr>fresh_permutation := (\<lambda>n. [0..<n])\<rparr>\<rparr>"
  let ?tr1 = "sample_frame\<lparr>rows := [rows sample_frame ! 2, rows sample_frame ! 1, rows sample_frame ! 0]\<rparr>"
  let ?te1 = "sample_frame\<lparr>rows := [rows sample_frame ! 3]\<rparr>"
  let ?tr2 = "sample_frame\<lparr>rows := [rows sample_frame ! 1, rows sample_frame ! 2, rows sample_frame ! 3]\<rparr>"
  let ?te2 = "sample_frame\<lparr>rows := [rows sample_frame ! 0]\<rparr>"
  from sample_main obtain s1 where s1: "main sample_world = Finished s1" ..
  from sample_main_identity obtain s2 where s2: "main ?w2 = Finished s2" ..
  from main_partitions [OF s1] have p1: "credit_df s1 = Some sample_frame"
    "train_df s1 = Some (snd (pop ?tr1 label_column))"
    "test_df s1 = Some (snd (pop ?te1 label_column))"
    using sample_split by (auto simp: sample_world_def)
  from main_partitions [OF s2] have p2: "credit_df s2 = Some sample_frame"
    "train_df s2 = Some (snd (pop ?tr2 label_column))"
    "test_df s2 = Some (snd (pop ?te2 label_column))"
    using sample_split_identity by (auto simp: sample_world_def)
  have d: "snd (pop ?tr1 label_column) \<noteq> snd (pop ?tr2 label_column)"
    "snd (pop ?te1 label_column) \<noteq> snd (pop ?te2 label_column)"
    by (simp_all add: pop_def getitem_def delitem_def cells_under_def cells_beside_def sample_frame_def label_column_def drop_at_def)
  have q: "permutes_rows (fresh_permutation sample_rng (length (rows sample_frame)))
      (length (rows sample_frame))"
    "permutes_rows [0..<length (rows sample_frame)] (length (rows sample_frame))"
    by (simp_all add: permutes_rows_def sample_rng_def)
  show "\<exists>s1 s2 df.
        main sample_world = Finished s1
      \<and> main ?w2 = Finished s2
      \<and> credit_df s1 = Some df \<and> credit_df s2 = Some df
      \<and> permutes_rows (fresh_permutation sample_rng (length (rows df))) (length (rows df))
      \<and> permutes_rows [0..<length (rows df)] (length (rows df))
      \<and> train_df s1 \<noteq> train_df s2 \<and> test_df s1 \<noteq> test_df s2"
    apply (rule exI [of _ s1], rule exI [of _ s2], rule exI [of _ sample_frame])
    using s1 s2 p1 p2 d q by simp
qed

theorem split_depends_on_fresh_draw_witness:
  "\<exists>s df. main sample_world = Finished s
     \<and> credit_df s = Some df \<and> calls s ! 1 = TrainTestSplit df (1 / 4) None"
proof -
  from sample_main obtain s where s: "main sample_world = Finished s" ..
  from split_depends_on_fresh_draw [of sample_world s] s show ?thesis
    by blast
qed

lemma gradient_boosting_fit_raises:
  assumes "active_run_stack s = []" and "X_train s = Some X" and "y_train s = Some y"
    and "fit_estimator w (GradientBoostingClassifier 100 (1 / 10)) X y = Inl e"
  shows "\<exists>s'. run (cell_gradient_boosting w) s = Aborted 49 e s'"
  unfolding cell_defs
  by (simp add: run_Cons_Aborted run_Nil_Aborted line_Inr assms line49_def fit_def bindE_def
      var_def del: run.simps)

lemma gradient_boosting_predict_raises:
  assumes "active_run_stack s = []" and "X_train s = Some X" and "y_train s = Some y"
    and "X_test s = Some Xt"
    and "fit_estimator w (GradientBoostingClassifier 100 (1 / 10)) X y = Inr m"
    and "predict_estimator w m Xt = Inl e"
  shows "\<exists>s'. run (cell_gradient_boosting w) s = Aborted 51 e s'"
  unfolding cell_defs
  by (simp add: run_Cons_Aborted run_Nil_Aborted line_Inr assms line51_def predict_def bindE_def
      var_def del: run.simps)

lemma preparation_runs:
  assumes "read_csv w dataset_url 1 0 = Inr df"
    and "train_test_split (generator w) df (1 / 4) None = Inr (tr, te)"
    and "fst (pop tr label_column) = Inr ytr"
    and "fst (pop te label_column) = Inr yte"
    and "tracking_backend w experiment_name = None"
  shows "\<exists>s1. run (cell_load w @ cell_extract @ cell_tracking w) initial = Finished s1
    \<and> active_run_stack s1 = []
    \<and> X_train s1 = Some (values_of (snd (pop tr label_column)))
    \<and> y_train s1 = Some ytr
    \<and> X_test s1 = Some (values_of (snd (pop te label_column)))"
  unfolding preparation_Finished using assms by force

lemma fit_raises_Aborted:
  assumes "read_csv w dataset_url 1 0 = Inr df"
    and "train_test_split (generator w) df (1 / 4) None = Inr (tr, te)"
    and "fst (pop tr label_column) = Inr ytr"
    and "fst (pop te label_column) = Inr yte"
    and "tracking_backend w experiment_name = None"
    and "fit_estimator w (GradientBoostingClassifier 100 (1 / 10))
           (values_of (snd (pop tr label_column))) ytr = Inl e"
  shows "\<exists>s. main w = Aborted 49 e s"
proof -
  from preparation_runs [OF assms(1-5)] obtain s1 where
    s1: "run (cell_load w @ cell_extract @ cell_tracking w) initial = Finished s1"
      "active_run_stack s1 = []"
      "X_train s1 = Some (values_of (snd (pop tr label_column)))"
      "y_train s1 = Some ytr"
    by blast
  from gradient_boosting_fit_raises [OF s1(2-4) assms(6)] obtain s where
    "run (cell_gradient_boosting w) s1 = Aborted 49 e s" ..
  with s1(1) show ?thesis
    unfolding main_def script_split run_append_Aborted by blast
qed

lemma predict_raises_Aborted:
  assumes "read_csv w dataset_url 1 0 = Inr df"
    and "train_test_split (generator w) df (1 / 4) None = Inr (tr, te)"
    and "fst (pop tr label_column) = Inr ytr"
    and "fst (pop te label_column) = Inr yte"
    and "tracking_backend w experiment_name = None"
    and "fit_estimator w (GradientBoostingClassifier 100 (1 / 10))
           (values_of (snd (pop tr label_column))) ytr = Inr m"
    and "predict_estimator w m (values_of (snd (pop te label_column))) = Inl e"
  shows "\<exists>s. main w = Aborted 51 e s"
proof -
  from preparation_runs [OF assms(1-5)] obtain s1 where
    s1: "run (cell_load w @ cell_extract @ cell_tracking w) initial = Finished s1"
      "active_run_stack s1 = []"
      "X_train s1 = Some (values_of (snd (pop tr label_column)))"
      "y_train s1 = Some ytr"
      "X_test s1 = Some (values_of (snd (pop te label_column)))"
    by blast
  from gradient_boosting_predict_raises [OF s1(2-5) assms(6,7)] obtain s where
    "run (cell_gradient_boosting w) s1 = Aborted 51 e s" ..
  with s1(1) show ?thesis
    unfolding main_def script_split run_append_Aborted by blast
qed

lemma exit_hook_active:
  "active_run_stack s = [r] \<Longrightarrow>
     exit_hook s = s\<lparr>active_run_stack := [], calls := calls s @ [EndRun r]\<rparr>"
  by (simp add: exit_hook_def end_run_def)

text \<open>
  Claim C6, as amended. When the first cycle's fit or predict raises, the script stops at
  that line (49 or 51): nothing of the second cycle has run, the script has not called
  the end of the run it started at line 47, and at the exception that run is still
  active. The run does not stay open: the exit hook ends it when the process exits.
\<close>

theorem first_cycle_failure_run_active_until_exit:
  "(read_csv w dataset_url 1 0 = Inr df
      \<and> train_test_split (generator w) df (1 / 4) None = Inr (tr, te)
      \<and> fst (pop tr label_column) = Inr ytr
      \<and> fst (pop te label_column) = Inr yte
      \<and> tracking_backend w experiment_name = None \<longrightarrow>
        (fit_estimator w (GradientBoostingClassifier 100 (1 / 10))
           (values_of (snd (pop tr label_column))) ytr = Inl e \<longrightarrow>
           (\<exists>s. main w = Aborted 49 e s))
      \<and> (fit_estimator w (GradientBoostingClassifier 100 (1 / 10))
           (values_of (snd (pop tr label_column))) ytr = Inr m
         \<and> predict_estimator w m (values_of (snd (pop te label_column))) = Inl e \<longrightarrow>
           (\<exists>s. main w = Aborted 51 e s)))
   \<and> (main w = Aborted l e' s' \<and> (l = 49 \<or> l = 51) \<longrightarrow>
        (\<exists>df tr te ytr yte.
            read_csv w dataset_url 1 0 = Inr df
          \<and> train_test_split (generator w) df (1 / 4) None = Inr (tr, te)
          \<and> fst (pop tr label_column) = Inr ytr
          \<and> fst (pop te label_column) = Inr yte
          \<and> (l = 49 \<longrightarrow>
               fit_estimator w (GradientBoostingClassifier 100 (1 / 10))
                 (values_of (snd (pop tr label_column))) ytr = Inl e')
          \<and> (l = 51 \<longrightarrow>
               (\<exists>m. fit_estimator w (GradientBoostingClassifier 100 (1 / 10))
                      (values_of (snd (pop tr label_column))) ytr = Inr m
                  \<and> predict_estimator w m (values_of (snd (pop te label_column))) = Inl e'))
          \<and> console s' = [shape_line (values_of (snd (pop tr label_column)))]
          \<and> calls s' =
               [ReadCsv dataset_url, TrainTestSplit df (1 / 4) None,
                Pop tr label_column, Pop te label_column,
                SetExperiment experiment_name, Autolog, StartRun 0]
               @ (if l = 49 then []
                  else [Fit (GradientBoostingClassifier 100 (1 / 10))
                          (values_of (snd (pop tr label_column))) ytr]))
      \<and> active_run_stack s' = [0] \<and> runs_created s' = 1
      \<and> ada s' = None
      \<and> (\<forall>r. EndRun r \<notin> set (calls s'))
      \<and> process w = Aborted l e' (s'\<lparr>active_run_stack := [], calls := calls s' @ [EndRun 0]\<rparr>))"
proof (intro conjI impI)
  assume "read_csv w dataset_url 1 0 = Inr df
      \<and> train_test_split (generator w) df (1 / 4) None = Inr (tr, te)
      \<and> fst (pop tr label_column) = Inr ytr
      \<and> fst (pop te label_column) = Inr yte
      \<and> tracking_backend w experiment_name = None"
  then have p: "read_csv w dataset_url 1 0 = Inr df"
    "train_test_split (generator w) df (1 / 4) None = Inr (tr, te)"
    "fst (pop tr label_column) = Inr ytr"
    "fst (pop te label_column) = Inr yte"
    "tracking_backend w experiment_name = None"
    by simp_all
  {
    assume "fit_estimator w (GradientBoostingClassifier 100 (1 / 10))
           (values_of (snd (pop tr label_column))) ytr = Inl e"
    from fit_raises_Aborted [OF p this] show "\<exists>s. main w = Aborted 49 e s" .
  }
  {
    assume "fit_estimator w (GradientBoostingClassifier 100 (1 / 10))
           (values_of (snd (pop tr label_column))) ytr = Inr m
         \<and> predict_estimator w m (values_of (snd (pop te label_column))) = Inl e"
    then have "fit_estimator w (GradientBoostingClassifier 100 (1 / 10))
           (values_of (snd (pop tr label_column))) ytr = Inr m"
      "predict_estimator w m (values_of (snd (pop te label_column))) = Inl e"
      by simp_all
    from predict_raises_Aborted [OF p this] show "\<exists>s. main w = Aborted 51 e s" .
  }
next
  assume a: "main w = Aborted l e' s' \<and> (l = 49 \<or> l = 51)"
  then have m: "main w = Aborted l e' s'" and l: "l = 49 \<or> l = 51" by simp_all
  from first_cycle_Aborted [OF m l] obtain df tr te ytr yte where
    f: "read_csv w dataset_url 1 0 = Inr df"
      "train_test_split (generator w) df (1 / 4) None = Inr (tr, te)"
      "fst (pop tr label_column) = Inr ytr"
      "fst (pop te label_column) = Inr yte"
      "l = 49 \<longrightarrow>
         fit_estimator w (GradientBoostingClassifier 100 (1 / 10))
           (values_of (snd (pop tr label_column))) ytr = Inl e'"
      "l = 51 \<longrightarrow>
         (\<exists>m. fit_estimator w (GradientBoostingClassifier 100 (1 / 10))
                (values_of (snd (pop tr label_column))) ytr = Inr m
            \<and> predict_estimator w m (values_of (snd (pop te label_column))) = Inl e')"
    and g: "active_run_stack s' = [0]" "runs_created s' = 1" "ada s' = None"
    and c: "console s' = [shape_line (values_of (snd (pop tr label_column)))]"
      "calls s' =
         [ReadCsv dataset_url, TrainTestSplit df (1 / 4) None,
          Pop tr label_column, Pop te label_column,
          SetExperiment experiment_name, Autolog, StartRun 0]
         @ (if l = 49 then []
            else [Fit (GradientBoostingClassifier 100 (1 / 10))
                    (values_of (snd (pop tr label_column))) ytr])"
    by blast
  from f c show "\<exists>df tr te ytr yte.
            read_csv w dataset_url 1 0 = Inr df
          \<and> train_test_split (generator w) df (1 / 4) None = Inr (tr, te)
          \<and> fst (pop tr label_column) = Inr ytr
          \<and> fst (pop te label_column) = Inr yte
          \<and> (l = 49 \<longrightarrow>
               fit_estimator w (GradientBoostingClassifier 100 (1 / 10))
                 (values_of (snd (pop tr label_column))) ytr = Inl e')
          \<and> (l = 51 \<longrightarrow>
               (\<exists>m. fit_estimator w (GradientBoostingClassifier 100 (1 / 10))
                      (values_of (snd (pop tr label_column))) ytr = Inr m
                  \<and> predict_estimator w m (values_of (snd (pop te label_column))) = Inl e'))
          \<and> console s' = [shape_line (values_of (snd (pop tr label_column)))]
          \<and> calls s' =
               [ReadCsv dataset_url, TrainTestSplit df (1 / 4) None,
                Pop tr label_column, Pop te label_column,
                SetExperiment experiment_name, Autolog, StartRun 0]
               @ (if l = 49 then []
                  else [Fit (GradientBoostingClassifier 100 (1 / 10))
                          (values_of (snd (pop tr label_column))) ytr])"
    by blast
  from g show "active_run_stack s' = [0]" "runs_created s' = 1" "ada s' = None"
    by simp_all
  from c(2) show "\<forall>r. EndRun r \<notin> set (calls s')"
    by simp
  from m exit_hook_active [OF g(1)]
  show "process w = Aborted l e' (s'\<lparr>active_run_stack := [], calls := calls s' @ [EndRun 0]\<rparr>)"
    by (simp add: process_def)
qed


lemma failing_worlds_prepare:
  obtains ytr yte where
    "read_csv fit_fails_world dataset_url 1 0 = Inr sample_frame"
    "read_csv predict_fails_world dataset_url 1 0 = Inr sample_frame"
    "train_test_split (generator fit_fails_world) sample_frame (1 / 4) None =
       Inr (sample_frame\<lparr>rows := [rows sample_frame ! 2, rows sample_frame ! 1, rows sample_frame ! 0]\<rparr>,
            sample_frame\<lparr>rows := [rows sample_frame ! 3]\<rparr>)"
    "train_test_split (generator predict_fails_world) sample_frame (1 / 4) None =
       Inr (sample_frame\<lparr>rows := [rows sample_frame ! 2, rows sample_frame ! 1, rows sample_frame ! 0]\<rparr>,
            sample_frame\<lparr>rows := [rows sample_frame ! 3]\<rparr>)"
    "fst (pop (sample_frame\<lparr>rows := [rows sample_frame ! 2, rows sample_frame ! 1, rows sample_frame ! 0]\<rparr>) label_column) = Inr ytr"
    "fst (pop (sample_frame\<lparr>rows := [rows sample_frame ! 3]\<rparr>) label_column) = Inr yte"
    "tracking_backend fit_fails_world experiment_name = None"
    "tracking_backend predict_fails_world experiment_name = None"
proof -
  from sample_pop_train sample_pop_test obtain ytr yte where
    "fst (pop (sample_frame\<lparr>rows := [rows sample_frame ! 2, rows sample_frame ! 1, rows sample_frame ! 0]\<rparr>) label_column) = Inr ytr"
    "fst (pop (sample_frame\<lparr>rows := [rows sample_frame ! 3]\<rparr>) label_column) = Inr yte"
    by blast
  moreover have "generator fit_fails_world = sample_rng" "generator predict_fails_world = sample_rng"
    by (simp_all add: fit_fails_world_def predict_fails_world_def sample_world_def)
  moreover have "read_csv fit_fails_world dataset_url 1 0 = Inr sample_frame"
    "read_csv predict_fails_world dataset_url 1 0 = Inr sample_frame"
    "tracking_backend fit_fails_world experiment_name = None"
    "tracking_backend predict_fails_world experiment_name = None"
    by (simp_all add: fit_fails_world_def predict_fails_world_def sample_world_def)
  ultimately show ?thesis
    using that sample_split by simp
qed

lemma failing_worlds_raise:
  "fit_estimator fit_fails_world c X y = Inl (LibraryError ''fit'')"
  "fit_estimator predict_fails_world c X y = Inr ()"
  "predict_estimator predict_fails_world m Xt = Inl (LibraryError ''predict'')"
  by (simp_all add: fit_fails_world_def predict_fails_world_def sample_world_def)

theorem first_cycle_failure_counterexample:
  "raised_at (process fit_fails_world) = Some 49
   \<and> active_run_stack (state_of (process fit_fails_world)) = []
   \<and> last (calls (state_of (process fit_fails_world))) = EndRun 0"
proof -
  let ?tr = "sample_frame\<lparr>rows := [rows sample_frame ! 2, rows sample_frame ! 1, rows sample_frame ! 0]\<rparr>"
  let ?te = "sample_frame\<lparr>rows := [rows sample_frame ! 3]\<rparr>"
  obtain ytr yte where p:
    "read_csv fit_fails_world dataset_url 1 0 = Inr sample_frame"
    "read_csv predict_fails_world dataset_url 1 0 = Inr sample_frame"
    "train_test_split (generator fit_fails_world) sample_frame (1 / 4) None = Inr (?tr, ?te)"
    "train_test_split (generator predict_fails_world) sample_frame (1 / 4) None = Inr (?tr, ?te)"
    "fst (pop ?tr label_column) = Inr ytr"
    "fst (pop ?te label_column) = Inr yte"
    "tracking_backend fit_fails_world experiment_name = None"
    "tracking_backend predict_fails_world experiment_name = None"
    by (rule failing_worlds_prepare)
  from fit_raises_Aborted [OF p(1) p(3) p(5) p(6) p(7) failing_worlds_raise(1)]
  obtain s where s: "main fit_fails_world = Aborted 49 (LibraryError ''fit'') s" ..
  from first_cycle_Aborted [OF s] have a: "active_run_stack s = [0]" by auto
  from s exit_hook_active [OF a] show ?thesis
    by (simp add: process_def)
qed

theorem first_cycle_failure_run_active_until_exit_witness:
  "(\<exists>s. main fit_fails_world = Aborted 49 (LibraryError ''fit'') s
        \<and> active_run_stack s = [0]
        \<and> process fit_fails_world =
            Aborted 49 (LibraryError ''fit'')
              (s\<lparr>active_run_stack := [], calls := calls s @ [EndRun 0]\<rparr>))
   \<and> (\<exists>s. main predict_fails_world = Aborted 51 (LibraryError ''predict'') s
        \<and> active_run_stack s = [0]
        \<and> process predict_fails_world =
            Aborted 51 (LibraryError ''predict'')
              (s\<lparr>active_run_stack := [], calls := calls s @ [EndRun 0]\<rparr>))"
proof -
  let ?tr = "sample_frame\<lparr>rows := [rows sample_frame ! 2, rows sample_frame ! 1, rows sample_frame ! 0]\<rparr>"
  let ?te = "sample_frame\<lparr>rows := [rows sample_frame ! 3]\<rparr>"
  obtain ytr yte where p:
    "read_csv fit_fails_world dataset_url 1 0 = Inr sample_frame"
    "read_csv predict_fails_world dataset_url 1 0 = Inr sample_frame"
    "train_test_split (generator fit_fails_world) sample_frame (1 / 4) None = Inr (?tr, ?te)"
    "train_test_split (generator predict_fails_world) sample_frame (1 / 4) None = Inr (?tr, ?te)"
    "fst (pop ?tr label_column) = Inr ytr"
    "fst (pop ?te label_column) = Inr yte"
    "tracking_backend fit_fails_world experiment_name = None"
    "tracking_backend predict_fails_world experiment_name = None"
    by (rule failing_worlds_prepare)
  have prep1: "read_csv fit_fails_world dataset_url 1 0 = Inr sample_frame
      \<and> train_test_split (generator fit_fails_world) sample_frame (1 / 4) None = Inr (?tr, ?te)
      \<and> fst (pop ?tr label_column) = Inr ytr
      \<and> fst (pop ?te label_column) = Inr yte
      \<and> tracking_backend fit_fails_world experiment_name = None"
    by (intro conjI) (rule p)+
  have prep2: "read_csv predict_fails_world dataset_url 1 0 = Inr sample_frame
      \<and> train_test_split (generator predict_fails_world) sample_frame (1 / 4) None = Inr (?tr, ?te)
      \<and> fst (pop ?tr label_column) = Inr ytr
      \<and> fst (pop ?te label_column) = Inr yte
      \<and> tracking_backend predict_fails_world experiment_name = None"
    by (intro conjI) (rule p)+
  note fwd1 = first_cycle_failure_run_active_until_exit
    [where w = fit_fails_world and e = "LibraryError ''fit''",
      THEN conjunct1, THEN mp, OF prep1, THEN conjunct1, THEN mp, OF failing_worlds_raise(1)]
  then obtain s1 where s1: "main fit_fails_world = Aborted 49 (LibraryError ''fit'') s1" ..
  have h1: "main fit_fails_world = Aborted 49 (LibraryError ''fit'') s1
      \<and> ((49 :: nat) = 49 \<or> (49 :: nat) = 51)"
    using s1 by simp
  note bwd1 = first_cycle_failure_run_active_until_exit [THEN conjunct2, THEN mp, OF h1]
  note a1 = bwd1 [THEN conjunct2, THEN conjunct1]
  note x1 = bwd1 [THEN conjunct2, THEN conjunct2, THEN conjunct2, THEN conjunct2, THEN conjunct2]
  have fp: "fit_estimator predict_fails_world (GradientBoostingClassifier 100 (1 / 10))
        (values_of (snd (pop ?tr label_column))) ytr = Inr ()
      \<and> predict_estimator predict_fails_world () (values_of (snd (pop ?te label_column)))
          = Inl (LibraryError ''predict'')"
    by (intro conjI) (rule failing_worlds_raise)+
  note fwd2 = first_cycle_failure_run_active_until_exit
    [where w = predict_fails_world and e = "LibraryError ''predict''",
      THEN conjunct1, THEN mp, OF prep2, THEN conjunct2, THEN mp, OF fp]
  then obtain s2 where s2: "main predict_fails_world = Aborted 51 (LibraryError ''predict'') s2" ..
  have h2: "main predict_fails_world = Aborted 51 (LibraryError ''predict'') s2
      \<and> ((51 :: nat) = 49 \<or> (51 :: nat) = 51)"
    using s2 by simp
  note bwd2 = first_cycle_failure_run_active_until_exit [THEN conjunct2, THEN mp, OF h2]
  note a2 = bwd2 [THEN conjunct2, THEN conjunct1]
  note x2 = bwd2 [THEN conjunct2, THEN conjunct2, THEN conjunct2, THEN conjunct2, THEN conjunct2]
  show ?thesis
    apply (rule conjI)
     apply (rule exI [of _ s1], intro conjI, rule s1, rule a1, rule x1)
    apply (rule exI [of _ s2], intro conjI, rule s2, rule a2, rule x2)
    done
qed

end
